theory Spec2Isabelle
  imports Main "HOL-Library.Word"
begin

section \<open>JavaScript values\<close>

text \<open>
  The client handles decoded JSON bodies without a static shape (\<open>response.data\<close> is
  \<open>any\<close>), so values are modelled as they are at run time. \<open>JUndefined\<close> is what a
  missing property reads as. Numbers are restricted to integers: the claims concern
  identifiers, quantities, status codes and clock readings, never fractions.
  An object is an association list; a property read takes the first binding of the key.
\<close>

datatype jsval =
    JUndefined
  | JNull
  | JBool bool
  | JNum int
  | JStr string
  | JArr "jsval list"
  | JObj "(string \<times> jsval) list"

text \<open>\<open>typeof v\<close>.\<close>

fun typeof :: "jsval \<Rightarrow> string" where
  "typeof JUndefined = ''undefined''"
| "typeof JNull = ''object''"
| "typeof (JBool b) = ''boolean''"
| "typeof (JNum n) = ''number''"
| "typeof (JStr s) = ''string''"
| "typeof (JArr xs) = ''object''"
| "typeof (JObj kvs) = ''object''"

text \<open>\<open>Array.isArray(v)\<close>.\<close>

fun isArray :: "jsval \<Rightarrow> bool" where
  "isArray (JArr xs) = True"
| "isArray v = False"

text \<open>Truthiness, as \<open>if (v)\<close>, \<open>!!v\<close>, \<open>v || w\<close> and \<open>v ? a : b\<close> test it.\<close>

fun truthy :: "jsval \<Rightarrow> bool" where
  "truthy JUndefined = False"
| "truthy JNull = False"
| "truthy (JBool b) = b"
| "truthy (JNum n) = (n \<noteq> 0)"
| "truthy (JStr s) = (s \<noteq> [])"
| "truthy (JArr xs) = True"
| "truthy (JObj kvs) = True"

text \<open>
  \<open>v?.k\<close>: the property \<open>k\<close> of \<open>v\<close>, \<open>undefined\<close> when \<open>v\<close> is null or undefined or
  has no such property. (None of the property names the client reads, \<open>Products\<close>,
  \<open>products\<close>, \<open>items\<close>, \<open>Id\<close>, \<open>data\<close>, \<open>message\<close>, is a built-in property of a
  string, number, boolean or array.)
\<close>

fun prop_opt :: "jsval \<Rightarrow> string \<Rightarrow> jsval" where
  "prop_opt (JObj kvs) k = (case map_of kvs k of None \<Rightarrow> JUndefined | Some v \<Rightarrow> v)"
| "prop_opt v k = JUndefined"

text \<open>\<open>v[0]\<close> on an array: \<open>undefined\<close> when the array is empty.\<close>

fun first_element :: "jsval list \<Rightarrow> jsval" where
  "first_element [] = JUndefined"
| "first_element (x # xs) = x"

subsection \<open>Numbers and values as strings\<close>

definition digit_char :: "nat \<Rightarrow> char" where
  "digit_char d = ''0123456789'' ! d"

fun show_nat :: "nat \<Rightarrow> string" where
  "show_nat n = (if n < 10 then [digit_char n] else show_nat (n div 10) @ [digit_char (n mod 10)])"

declare show_nat.simps [simp del]

definition show_int :: "int \<Rightarrow> string" where
  "show_int i = (if i < 0 then CHR ''-'' # show_nat (nat (- i)) else show_nat (nat i))"

fun join_strings :: "string \<Rightarrow> string list \<Rightarrow> string" where
  "join_strings sep [] = []"
| "join_strings sep [s] = s"
| "join_strings sep (s # t # ss) = s @ sep @ join_strings sep (t # ss)"

text \<open>
  The string a template literal \<open>`${v}`\<close> inserts for \<open>v\<close>: an array is its elements
  joined by commas, with null and undefined elements empty.
\<close>

fun js_toString :: "jsval \<Rightarrow> string" where
  "js_toString JUndefined = ''undefined''"
| "js_toString JNull = ''null''"
| "js_toString (JBool b) = (if b then ''true'' else ''false'')"
| "js_toString (JNum n) = show_int n"
| "js_toString (JStr s) = s"
| "js_toString (JArr xs) =
     join_strings '','' (map (\<lambda>x. if x = JNull \<or> x = JUndefined then [] else js_toString x) xs)"
| "js_toString (JObj kvs) = ''[object Object]''"

section \<open>The response cache\<close>

text \<open>
  Modelled from the spec: the Response Cache of section 4.2 is the \<open>LRUCache\<close> class of the
  \<open>lru-cache\<close> package, which is not among the sources. Its operations are given as the
  spec describes them (a capacity-bounded store with least-recently-used eviction and a
  time-to-live per entry, staleness checked lazily on every read), under the options the
  constructor of \<open>ApliiqClient\<close> passes: \<open>max\<close>, \<open>ttl\<close>, \<open>allowStale\<close>,
  \<open>updateAgeOnGet\<close> (a \<open>get\<close> that hits restarts the entry's age) and
  \<open>updateAgeOnHas\<close> (always false). A time-to-live of 0 means the entry never expires.
  The clock is a parameter of every operation that reads it; its readings are
  milliseconds. \<open>entries\<close> is ordered from the most to the least recently used.
\<close>

record entry =
  ekey :: string
  evalue :: jsval
  estart :: nat
  ettl :: nat

record LRUCache =
  entries :: "entry list"
  opt_max :: nat
  opt_ttl :: nat
  opt_allowStale :: bool
  opt_updateAgeOnGet :: bool

definition isStale :: "entry \<Rightarrow> nat \<Rightarrow> bool" where
  "isStale e now = (ettl e \<noteq> 0 \<and> now - estart e > ettl e)"

definition lookup_entry :: "LRUCache \<Rightarrow> string \<Rightarrow> entry option" where
  "lookup_entry c k = find (\<lambda>e. ekey e = k) (entries c)"

definition remove_key :: "string \<Rightarrow> entry list \<Rightarrow> entry list" where
  "remove_key k es = filter (\<lambda>e. ekey e \<noteq> k) es"

definition updateItemAge :: "entry \<Rightarrow> nat \<Rightarrow> entry" where
  "updateItemAge e now = e\<lparr>estart := (if ettl e \<noteq> 0 then now else 0)\<rparr>"

definition cache_delete :: "LRUCache \<Rightarrow> string \<Rightarrow> LRUCache" where
  "cache_delete c k = c\<lparr>entries := remove_key k (entries c)\<rparr>"

text \<open>\<open>has(k)\<close>: true for a key that is stored and not stale. The constructor passes
  \<open>updateAgeOnHas: false\<close>, so \<open>has\<close> leaves the cache as it is.\<close>

definition cache_has :: "LRUCache \<Rightarrow> string \<Rightarrow> nat \<Rightarrow> bool" where
  "cache_has c k now =
     (case lookup_entry c k of None \<Rightarrow> False | Some e \<Rightarrow> \<not> isStale e now)"

text \<open>
  \<open>get(k)\<close>: a stale entry is deleted (and returned only under \<open>allowStale\<close>); a live one
  becomes the most recently used and, under \<open>updateAgeOnGet\<close>, starts its age again.
\<close>

definition cache_get :: "LRUCache \<Rightarrow> string \<Rightarrow> nat \<Rightarrow> jsval \<times> LRUCache" where
  "cache_get c k now =
     (case lookup_entry c k of
        None \<Rightarrow> (JUndefined, c)
      | Some e \<Rightarrow>
          if isStale e now
          then (if opt_allowStale c then evalue e else JUndefined, cache_delete c k)
          else (evalue e,
                c\<lparr>entries := (if opt_updateAgeOnGet c then updateItemAge e now else e)
                               # remove_key k (entries c)\<rparr>))"

text \<open>
  \<open>set(k, v, {ttl})\<close>: an absent \<open>ttl\<close> is the cache's own. A new key in a full cache
  evicts the least recently used entry first; a stored key is replaced in place and
  becomes the most recently used.
\<close>

definition cache_set :: "LRUCache \<Rightarrow> string \<Rightarrow> jsval \<Rightarrow> nat option \<Rightarrow> nat \<Rightarrow> LRUCache" where
  "cache_set c k v ttl_opt now =
     (let t = (case ttl_opt of None \<Rightarrow> opt_ttl c | Some t \<Rightarrow> t);
          e = \<lparr>ekey = k, evalue = v, estart = (if t \<noteq> 0 then now else 0), ettl = t\<rparr>
      in case lookup_entry c k of
           Some old \<Rightarrow> c\<lparr>entries := e # remove_key k (entries c)\<rparr>
         | None \<Rightarrow>
             c\<lparr>entries := e # (if length (entries c) \<ge> opt_max c
                                then butlast (entries c) else entries c)\<rparr>)"


definition cache_clear :: "LRUCache \<Rightarrow> LRUCache" where
  "cache_clear c = c\<lparr>entries := []\<rparr>"


section \<open>Configuration, requests and errors\<close>

record ProductsCacheConfig =
  products_ttl :: "nat option"
  batchTTL :: "nat option"

record CacheConfig =
  enabled :: bool
  cfg_max :: "nat option"
  cfg_ttl :: "nat option"
  staleWhileRevalidate :: "bool option"
  products :: "ProductsCacheConfig option"

record ApliiqConfig =
  appId :: string
  sharedSecret :: string
  endpoint :: "string option"
  timeout :: "nat option"
  cacheConfig :: "CacheConfig option"

record request =
  req_method :: string
  url :: string
  req_data :: jsval
  headers :: "string \<rightharpoonup> string"

record response =
  status :: nat
  data :: jsval

datatype ZodIssue = Issue string

fun issue_message :: "ZodIssue \<Rightarrow> string" where
  "issue_message (Issue m) = m"

text \<open>
  What a \<open>catch\<close> block can receive: a \<open>ZodError\<close> with its issues, an \<open>AxiosError\<close>
  with its message and, when the server answered, the response, any other \<open>Error\<close>
  with its message, or a value that is no \<open>Error\<close> at all.
\<close>

datatype thrown =
    ZodError "ZodIssue list"
  | AxiosError string "response option"
  | JsError string
  | NonError jsval

text \<open>\<open>src/errors.ts\<close>. The constructor stores \<open>message\<close> as it is given, so it is a
  value: \<open>handleError\<close> can pass the \<open>message\<close> property of a response body.\<close>

record ApliiqError =
  message :: jsval
  statusCode :: nat
  details :: jsval

text \<open>
  The environment of a call. \<open>perf_now\<close> is the cache's clock when the call starts and
  \<open>perf_now_response\<close> the same clock once the response has arrived;
  \<open>date_now\<close> is \<open>Date.now()\<close> when the request is signed; \<open>randomBytes n\<close> is what
  \<open>crypto.randomBytes(n)\<close> returns; \<open>transport\<close> is the HTTP exchange behind the
  axios instance: the response whatever its status, or the message of a network failure.
  \<open>JSON_stringify\<close>, \<open>base64\<close> (\<open>Buffer.from(s).toString("base64")\<close>) and
  \<open>hmac_sha256_base64 key msg\<close> (\<open>createHmac("sha256", key).update(msg).digest("base64")\<close>)
  are the platform's functions, taken as they are.
\<close>

record env =
  perf_now :: nat
  perf_now_response :: nat
  date_now :: nat
  randomBytes :: "nat \<Rightarrow> 8 word list"
  transport :: "request \<Rightarrow> string + response"
  JSON_stringify :: "jsval \<Rightarrow> string"
  base64 :: "string \<Rightarrow> string"
  hmac_sha256_base64 :: "string \<Rightarrow> string \<Rightarrow> string"

section \<open>The client of \<open>src/client.ts\<close>\<close>

record ApliiqClient =
  config :: ApliiqConfig
  cache :: "LRUCache option"
  cacheEnabled :: bool

definition cacheKeyPrefix :: string where
  "cacheKeyPrefix = ''apliiq:''"

text \<open>The constructor, lines 45-56: the cache exists only when it is enabled.\<close>

definition new_ApliiqClient :: "ApliiqConfig \<Rightarrow> ApliiqClient" where
  "new_ApliiqClient cfg =
     (let cacheEnabled = (case cacheConfig cfg of None \<Rightarrow> False | Some cc \<Rightarrow> enabled cc) in
      \<lparr>config = cfg,
       cache =
         (if cacheEnabled then
            Some \<lparr>entries = [],
                  opt_max = (case Option.bind (cacheConfig cfg) cfg_max of None \<Rightarrow> 1000 | Some m \<Rightarrow> m),
                  opt_ttl = (case Option.bind (cacheConfig cfg) cfg_ttl of
                               None \<Rightarrow> 1000 * 60 * 5 | Some t \<Rightarrow> t),
                  opt_allowStale =
                    (case Option.bind (cacheConfig cfg) staleWhileRevalidate of
                       None \<Rightarrow> False | Some b \<Rightarrow> b),
                  opt_updateAgeOnGet = True\<rparr>
          else None),
       cacheEnabled = cacheEnabled\<rparr>)"

text \<open>The test \<open>this.cacheEnabled && this.cache\<close> that guards every use of the cache: the
  cache the client reads and writes, none when caching is disabled.\<close>

definition active_cache :: "ApliiqClient \<Rightarrow> LRUCache option" where
  "active_cache this = (if cacheEnabled this then cache this else None)"

subsection \<open>Signing requests\<close>

definition hex_char :: "nat \<Rightarrow> char" where
  "hex_char d = ''0123456789abcdef'' ! d"

text \<open>\<open>buf.toString("hex")\<close>: two lowercase hexadecimal digits for every byte.\<close>

definition toHex :: "8 word list \<Rightarrow> string" where
  "toHex bs = concat (map (\<lambda>b. [hex_char (unat b div 16), hex_char (unat b mod 16)]) bs)"

definition generateNonce :: "env \<Rightarrow> string" where
  "generateNonce e = toHex (randomBytes e 16)"

text \<open>The request interceptor, lines 67-87.\<close>

definition request_interceptor :: "env \<Rightarrow> ApliiqConfig \<Rightarrow> request \<Rightarrow> request" where
  "request_interceptor e cfg req =
     (let rts = show_nat (date_now e div 1000);
          state = generateNonce e;
          body = (if truthy (req_data req) then JSON_stringify e (req_data req) else '''');
          base64Content = base64 e body;
          signatureData = appId cfg @ rts @ state @ base64Content;
          sig = hmac_sha256_base64 e (sharedSecret cfg) signatureData
      in req\<lparr>headers := (headers req)
           (''Authorization'' \<mapsto>
              ''x-apliiq-auth '' @ rts @ '':'' @ sig @ '':'' @ appId cfg @ '':'' @ state)\<rparr>)"

definition default_headers :: "string \<rightharpoonup> string" where
  "default_headers =
     [''Content-Type'' \<mapsto> ''application/json'', ''Accept'' \<mapsto> ''application/json'']"

text \<open>
  A call through the axios instance: the interceptor signs the request, the transport
  carries it, and a status outside 200..299 or a network failure is an \<open>AxiosError\<close>.
  The second component is the list of requests that left the process.
\<close>

definition client_request ::
  "env \<Rightarrow> ApliiqConfig \<Rightarrow> string \<Rightarrow> string \<Rightarrow> jsval \<Rightarrow> (thrown + response) \<times> request list" where
  "client_request e cfg m path body =
     (let req = request_interceptor e cfg
                  \<lparr>req_method = m, url = path, req_data = body, headers = default_headers\<rparr>
      in (case transport e req of
            Inl msg \<Rightarrow> Inl (AxiosError msg None)
          | Inr r \<Rightarrow>
              if 200 \<le> status r \<and> status r < 300 then Inr r
              else Inl (AxiosError (''Request failed with status code '' @ show_nat (status r)) (Some r)),
          [req]))"

subsection \<open>Mapping errors\<close>

text \<open>\<open>handleError\<close>, lines 255-275.\<close>

fun handleError :: "thrown \<Rightarrow> ApliiqError" where
  "handleError (ZodError errors) =
     \<lparr>message = JStr (''Validation failed: '' @ join_strings '', '' (map issue_message errors)),
      statusCode = 400, details = JUndefined\<rparr>"
| "handleError (AxiosError msg resp) =
     \<lparr>message =
        (let m = (case resp of None \<Rightarrow> JUndefined | Some r \<Rightarrow> prop_opt (data r) ''message'')
         in if truthy m then m else JStr msg),
      statusCode = (case resp of None \<Rightarrow> 500 | Some r \<Rightarrow> if status r \<noteq> 0 then status r else 500),
      details = JUndefined\<rparr>"
| "handleError (JsError msg) = \<lparr>message = JStr msg, statusCode = 500, details = JUndefined\<rparr>"
| "handleError (NonError v) =
     \<lparr>message = JStr ''Unknown error'', statusCode = 500, details = JUndefined\<rparr>"

section \<open>Schema validation\<close>

text \<open>
  Modelled from the spec: the schema-validation collaborator (the \<open>zod\<close> package, which is
  not among the sources) validates a structural schema against a value and returns the
  typed value or a list of violations, of which the client reads the messages only. A
  schema is the function that parses with it. The result carries a status, as zod's
  does: a wrong type aborts, a failed check (\<open>positive\<close>, \<open>regex\<close>, \<open>startsWith\<close>,
  \<open>length\<close>, \<open>min\<close>) or refinement leaves the value dirty, a refinement runs unless
  its inner schema aborted, and an object schema keeps the keys of its shape only. The
  messages of the library's own issues are its defaults; the schemas of
  \<open>src/types.ts\<close> below are the code's.
\<close>

datatype zstatus = Valid | Dirty | Aborted

type_synonym zresult = "zstatus \<times> jsval \<times> ZodIssue list"

type_synonym schema = "jsval \<Rightarrow> zresult"

definition merge_status :: "zstatus list \<Rightarrow> zstatus" where
  "merge_status ss = (if Aborted \<in> set ss then Aborted else if Dirty \<in> set ss then Dirty else Valid)"

fun parsedType :: "jsval \<Rightarrow> string" where
  "parsedType JUndefined = ''undefined''"
| "parsedType JNull = ''null''"
| "parsedType (JBool b) = ''boolean''"
| "parsedType (JNum n) = ''number''"
| "parsedType (JStr s) = ''string''"
| "parsedType (JArr xs) = ''array''"
| "parsedType (JObj kvs) = ''object''"

definition invalid_type :: "string \<Rightarrow> jsval \<Rightarrow> zresult" where
  "invalid_type expected v =
     (Aborted, v,
      [Issue (if v = JUndefined then ''Required''
              else ''Expected '' @ expected @ '', received '' @ parsedType v)])"

definition run_checks :: "('a \<Rightarrow> ZodIssue option) list \<Rightarrow> 'a \<Rightarrow> ZodIssue list" where
  "run_checks checks x = List.map_filter (\<lambda>c. c x) checks"

definition z_string :: "(string \<Rightarrow> ZodIssue option) list \<Rightarrow> schema" where
  "z_string checks v =
     (case v of
        JStr s \<Rightarrow> (let issues = run_checks checks s in (if issues = [] then Valid else Dirty, v, issues))
      | _ \<Rightarrow> invalid_type ''string'' v)"

definition z_number :: "(int \<Rightarrow> ZodIssue option) list \<Rightarrow> schema" where
  "z_number checks v =
     (case v of
        JNum n \<Rightarrow> (let issues = run_checks checks n in (if issues = [] then Valid else Dirty, v, issues))
      | _ \<Rightarrow> invalid_type ''number'' v)"

definition positive :: "int \<Rightarrow> ZodIssue option" where
  "positive n = (if n > 0 then None else Some (Issue ''Number must be greater than 0''))"

definition regex :: "(string \<Rightarrow> bool) \<Rightarrow> string \<Rightarrow> ZodIssue option" where
  "regex matches s = (if matches s then None else Some (Issue ''Invalid''))"

definition startsWith :: "string \<Rightarrow> string \<Rightarrow> bool" where
  "startsWith s p = (take (length p) s = p)"

definition z_startsWith :: "string \<Rightarrow> string \<Rightarrow> ZodIssue option" where
  "z_startsWith p s =
     (if startsWith s p then None
      else Some (Issue (''Invalid input: must start with '' @ [CHR 0x22] @ p @ [CHR 0x22])))"

definition z_length :: "nat \<Rightarrow> string \<Rightarrow> ZodIssue option" where
  "z_length n s =
     (if length s = n then None
      else Some (Issue (''String must contain exactly '' @ show_nat n @ '' character(s)'')))"

definition z_optional :: "schema \<Rightarrow> schema" where
  "z_optional s v = (if v = JUndefined then (Valid, JUndefined, []) else s v)"

definition z_any :: schema where
  "z_any v = (Valid, v, [])"

definition z_enum :: "string list \<Rightarrow> schema" where
  "z_enum values v =
     (case v of
        JStr s \<Rightarrow>
          if s \<in> set values then (Valid, v, [])
          else (Aborted, v,
                [Issue (''Invalid enum value. Expected ''
                        @ join_strings '' | '' (map (\<lambda>x. [CHR 0x27] @ x @ [CHR 0x27]) values)
                        @ '', received '' @ [CHR 0x27] @ s @ [CHR 0x27])])
      | _ \<Rightarrow> invalid_type (join_strings '' | '' (map (\<lambda>x. [CHR 0x27] @ x @ [CHR 0x27]) values)) v)"

text \<open>\<open>z.array(element)\<close>, with \<open>.min(n)\<close> when \<open>least\<close> is given. Every element is
  parsed, and the issues of all of them are collected.\<close>

definition z_array :: "schema \<Rightarrow> nat option \<Rightarrow> schema" where
  "z_array element least v =
     (case v of
        JArr xs \<Rightarrow>
          (let own = (case least of
                        None \<Rightarrow> []
                      | Some n \<Rightarrow>
                          if length xs < n
                          then [Issue (''Array must contain at least '' @ show_nat n @ '' element(s)'')]
                          else []);
               rs = map element xs
           in (merge_status ((if own = [] then Valid else Dirty) # map fst rs),
               JArr (map (\<lambda>r. fst (snd r)) rs),
               own @ concat (map (\<lambda>r. snd (snd r)) rs)))
      | _ \<Rightarrow> invalid_type ''array'' v)"

text \<open>\<open>z.object(shape)\<close>: every key of the shape is parsed; the result holds the keys of
  the shape that are defined or present in the input, and no other key.\<close>

definition z_object :: "(string \<times> schema) list \<Rightarrow> schema" where
  "z_object shape v =
     (case v of
        JObj kvs \<Rightarrow>
          (let rs = map (\<lambda>(k, s). (k, s (prop_opt v k))) shape
           in (merge_status (map (\<lambda>(k, r). fst r) rs),
               JObj (map (\<lambda>(k, r). (k, fst (snd r)))
                       (filter (\<lambda>(k, r). fst (snd r) \<noteq> JUndefined \<or> k \<in> fst ` set kvs) rs)),
               concat (map (\<lambda>(k, r). snd (snd r)) rs)))
      | _ \<Rightarrow> invalid_type ''object'' v)"

definition z_refine :: "schema \<Rightarrow> (jsval \<Rightarrow> bool) \<Rightarrow> string \<Rightarrow> schema" where
  "z_refine inner check msg v =
     (case inner v of
        (st, out, issues) \<Rightarrow>
          if st = Aborted then (Aborted, out, issues)
          else if check out then (st, out, issues)
          else (Dirty, out, issues @ [Issue msg]))"

definition z_superRefine :: "schema \<Rightarrow> (jsval \<Rightarrow> ZodIssue list) \<Rightarrow> schema" where
  "z_superRefine inner refinement v =
     (case inner v of
        (st, out, issues) \<Rightarrow>
          if st = Aborted then (Aborted, out, issues)
          else if refinement out = [] then (st, out, issues)
          else (Dirty, out, issues @ refinement out))"

text \<open>\<open>schema.parse(v)\<close>: the parsed value, or a \<open>ZodError\<close> with every issue.\<close>

definition parse :: "schema \<Rightarrow> jsval \<Rightarrow> thrown + jsval" where
  "parse s v =
     (case s v of
        (st, out, issues) \<Rightarrow> if st = Valid then Inr out else Inl (ZodError issues))"

subsection \<open>The schemas of \<open>src/types.ts\<close>\<close>

text \<open>A schema built by \<open>z.object({...}).refine(...)\<close> is given in two steps: the shape
  passed to \<open>z.object\<close>, then the schema.\<close>

definition ProductSizeSchema :: schema where
  "ProductSizeSchema =
     z_object [(''Weight'', z_string []), (''PlusSize_Fee'', z_number []),
               (''Id'', z_number []), (''Name'', z_string [])]"

definition ColorSchema :: schema where
  "ColorSchema = z_object [(''Id'', z_number []), (''Name'', z_string [])]"

definition ServiceColorSchema :: schema where
  "ServiceColorSchema =
     z_object [(''HexColorCode'', z_string []), (''PantoneColorCode'', z_string []),
               (''EmbroideryColorCode'', z_string []), (''RBG'', z_string [])]"

definition ServiceSchema :: schema where
  "ServiceSchema =
     z_object [(''Alt_Name'', z_optional (z_string [])),
               (''AvailableColors'', z_optional (z_array ServiceColorSchema None)),
               (''Id'', z_number []), (''Name'', z_string [])]"

definition SubscriptionSchema :: schema where
  "SubscriptionSchema =
     z_object [(''SavedDesign'', z_object [(''ProductId'', z_number []), (''Id'', z_number [])]),
               (''RemainInventory'', z_number []),
               (''Type'', z_string []),
               (''Placements'', z_array (z_object [(''Id'', z_number []), (''Name'', z_string [])]) None),
               (''Id'', z_number []), (''Name'', z_string []), (''ImagePath'', z_string [])]"

definition LocationSchema :: schema where
  "LocationSchema = z_object [(''Id'', z_number []), (''Name'', z_string [])]"

definition ProductSchema :: schema where
  "ProductSchema =
     z_object [(''Code'', z_string []),
               (''SKU'', z_string []),
               (''Sizes'', z_array ProductSizeSchema None),
               (''Features'', z_optional (z_string [])),
               (''Benefits'', z_optional (z_string [])),
               (''Colors'', z_optional (z_array ColorSchema None)),
               (''Services'', z_optional (z_array ServiceSchema None)),
               (''Price'', z_optional (z_number [])),
               (''Currency_Code'', z_optional (z_string [])),
               (''Subscriptions'', z_optional (z_array SubscriptionSchema None)),
               (''Locations'', z_optional (z_array LocationSchema None)),
               (''DetailName'', z_optional (z_string [])),
               (''Id'', z_number []),
               (''Name'', z_string []),
               (''Description'', z_optional (z_string []))]"

definition is_digit :: "char \<Rightarrow> bool" where
  "is_digit c = (c \<in> set ''0123456789'')"

text \<open>The regular expression \<open>/^\d+\.\d{2}$/\<close>: one or more digits, a dot, two digits.\<close>

definition price_regex :: "string \<Rightarrow> bool" where
  "price_regex s =
     (takeWhile is_digit s \<noteq> [] \<and>
      (case dropWhile is_digit s of
         [d, a, b] \<Rightarrow> d = CHR ''.'' \<and> is_digit a \<and> is_digit b
       | _ \<Rightarrow> False))"

definition LineItemShape :: "(string \<times> schema) list" where
  "LineItemShape =
     [(''id'', z_string []),
      (''title'', z_optional (z_string [])),
      (''name'', z_optional (z_string [])),
      (''quantity'', z_number [positive]),
      (''price'', z_string [regex price_regex]),
      (''sku'', z_string [z_startsWith ''APQ-'']),
      (''grams'', z_optional (z_number []))]"

definition LineItemSchema :: schema where
  "LineItemSchema =
     z_refine (z_object LineItemShape)
       (\<lambda>d. truthy (prop_opt d ''title'') \<or> truthy (prop_opt d ''name''))
       ''Line item requires either title or name''"

definition ShippingAddressShape :: "(string \<times> schema) list" where
  "ShippingAddressShape =
     [(''first_name'', z_string []),
      (''last_name'', z_string []),
      (''address1'', z_string []),
      (''address2'', z_optional (z_string [])),
      (''city'', z_string []),
      (''zip'', z_string []),
      (''province'', z_string []),
      (''country'', z_string []),
      (''country_code'', z_string [z_length 2]),
      (''province_code'', z_optional (z_string []))]"

definition ShippingAddressSchema :: schema where
  "ShippingAddressSchema =
     z_superRefine (z_object ShippingAddressShape)
       (\<lambda>d. if prop_opt d ''country_code'' = JStr ''US'' \<and> \<not> truthy (prop_opt d ''province_code'')
            then [Issue ''province_code required for US addresses''] else [])"

definition ApliiqOrderSchema :: schema where
  "ApliiqOrderSchema =
     z_object [(''number'', z_number [positive]),
               (''name'', z_string []),
               (''order_number'', z_number [positive]),
               (''line_items'', z_array LineItemSchema (Some 1)),
               (''billing_address'', z_optional z_any),
               (''shipping_address'', ShippingAddressSchema),
               (''shipping_lines'',
                  z_optional (z_array
                    (z_object [(''code'', z_enum [''standard'', ''upgraded'', ''rush''])]) None))]"

subsection \<open>Products\<close>

text \<open>The time-to-live options of lines 142-143 and 150-151; an absent one leaves the
  choice to the cache's own \<open>ttl\<close>.\<close>

definition productsTTL :: "ApliiqConfig \<Rightarrow> nat option" where
  "productsTTL cfg =
     (case Option.bind (Option.bind (cacheConfig cfg) products) batchTTL of
        Some t \<Rightarrow> Some t
      | None \<Rightarrow> Option.bind (cacheConfig cfg) cfg_ttl)"

definition singleProductTTL :: "ApliiqConfig \<Rightarrow> nat option" where
  "singleProductTTL cfg =
     (case Option.bind (Option.bind (cacheConfig cfg) products) products_ttl of
        Some t \<Rightarrow> Some t
      | None \<Rightarrow> Option.bind (cacheConfig cfg) cfg_ttl)"

definition productsCacheKey :: string where
  "productsCacheKey = cacheKeyPrefix @ ''products:all''"

definition productCacheKey :: "jsval \<Rightarrow> string" where
  "productCacheKey ident = cacheKeyPrefix @ ''product:'' @ js_toString ident"

text \<open>
  Lines 115-135 of \<open>getProducts\<close>: the product list of a response body, or the
  \<open>Error\<close> thrown. (\<open>find\<close> returns a key only when it holds an array, so the inner
  case on \<open>foundKey\<close> always takes its first branch.)
\<close>

definition extractProducts :: "jsval \<Rightarrow> thrown + jsval list" where
  "extractProducts body =
     (case body of
        JArr elements \<Rightarrow>
          (let firstElement = first_element elements in
           case prop_opt firstElement ''Products'' of
             JArr ps \<Rightarrow> Inr ps
           | _ \<Rightarrow> Inl (JsError ''Unexpected array structure - missing Products key''))
      | JObj kvs \<Rightarrow>
          (case find (\<lambda>key. isArray (prop_opt body key)) [''Products'', ''products'', ''items''] of
             Some foundKey \<Rightarrow> (case prop_opt body foundKey of JArr ps \<Rightarrow> Inr ps | _ \<Rightarrow> Inr [])
           | None \<Rightarrow> Inr [])
      | _ \<Rightarrow> Inl (JsError (''Unexpected response type: '' @ typeof body)))"

text \<open>
  Lines 147-156, the \<open>forEach\<close> over the product list: a product whose \<open>Id\<close> is truthy
  is stored under its own key. Reading \<open>Id\<close> of a null element throws a \<open>TypeError\<close>,
  which ends the loop with the entries stored so far in place.
\<close>

fun cacheEachProduct :: "ApliiqConfig \<Rightarrow> nat \<Rightarrow> jsval list \<Rightarrow> LRUCache \<Rightarrow> thrown option \<times> LRUCache" where
  "cacheEachProduct cfg now [] c = (None, c)"
| "cacheEachProduct cfg now (product # rest) c =
     (if product = JNull \<or> product = JUndefined
      then (Some (JsError (''Cannot read properties of '' @ js_toString product @ '' (reading 'Id')'')), c)
      else if truthy (prop_opt product ''Id'')
      then cacheEachProduct cfg now rest
             (cache_set c (productCacheKey (prop_opt product ''Id'')) product (singleProductTTL cfg) now)
      else cacheEachProduct cfg now rest c)"

text \<open>Lines 110-163 of \<open>getProducts\<close>: the \<open>try\<close> block, taken on a cache miss.\<close>

definition fetchProducts ::
  "env \<Rightarrow> ApliiqClient \<Rightarrow> (ApliiqError + jsval) \<times> ApliiqClient \<times> request list" where
  "fetchProducts e this =
     (case client_request e (config this) ''GET'' ''/Product'' JUndefined of
        (Inl err, sent) \<Rightarrow> (Inl (handleError err), this, sent)
      | (Inr resp, sent) \<Rightarrow>
          (case extractProducts (data resp) of
             Inl err \<Rightarrow> (Inl (handleError err), this, sent)
           | Inr productsArray \<Rightarrow>
               (case active_cache this of
                  None \<Rightarrow> (Inr (JArr productsArray), this, sent)
                | Some c \<Rightarrow>
                    (case cacheEachProduct (config this) (perf_now_response e) productsArray
                            (cache_set c productsCacheKey (JArr productsArray)
                               (productsTTL (config this)) (perf_now_response e)) of
                       (Some err, c') \<Rightarrow> (Inl (handleError err), this\<lparr>cache := Some c'\<rparr>, sent)
                     | (None, c') \<Rightarrow> (Inr (JArr productsArray), this\<lparr>cache := Some c'\<rparr>, sent)))))"

text \<open>
  \<open>getProducts\<close>, lines 101-164. The result is the value returned or the \<open>ApliiqError\<close>
  thrown, the client afterwards, and the requests sent.
\<close>

definition getProducts ::
  "env \<Rightarrow> ApliiqClient \<Rightarrow> (ApliiqError + jsval) \<times> ApliiqClient \<times> request list" where
  "getProducts e this =
     (case active_cache this of
        Some c \<Rightarrow>
          if cache_has c productsCacheKey (perf_now e)
          then (case cache_get c productsCacheKey (perf_now e) of
                  (v, c') \<Rightarrow> (Inr v, this\<lparr>cache := Some c'\<rparr>, []))
          else fetchProducts e this
      | None \<Rightarrow> fetchProducts e this)"

text \<open>Lines 178-196 of \<open>getProduct\<close>: the \<open>try\<close> block, taken on a cache miss.\<close>

definition fetchProduct ::
  "env \<Rightarrow> ApliiqClient \<Rightarrow> int \<Rightarrow> (ApliiqError + jsval) \<times> ApliiqClient \<times> request list" where
  "fetchProduct e this ident =
     (case client_request e (config this) ''GET'' (''/Product/'' @ show_int ident) JUndefined of
        (Inl err, sent) \<Rightarrow> (Inl (handleError err), this, sent)
      | (Inr resp, sent) \<Rightarrow>
          (let productData = (if truthy (prop_opt (data resp) ''data'')
                              then prop_opt (data resp) ''data'' else data resp)
           in case parse ProductSchema productData of
                Inl err \<Rightarrow> (Inl (handleError err), this, sent)
              | Inr validatedProduct \<Rightarrow>
                  (case active_cache this of
                     None \<Rightarrow> (Inr validatedProduct, this, sent)
                   | Some c \<Rightarrow>
                       (Inr validatedProduct,
                        this\<lparr>cache := Some (cache_set c (productCacheKey (JNum ident)) validatedProduct
                                               (singleProductTTL (config this)) (perf_now_response e))\<rparr>,
                        sent))))"

text \<open>\<open>getProduct\<close>, lines 169-197.\<close>

definition getProduct ::
  "env \<Rightarrow> ApliiqClient \<Rightarrow> int \<Rightarrow> (ApliiqError + jsval) \<times> ApliiqClient \<times> request list" where
  "getProduct e this ident =
     (case active_cache this of
        Some c \<Rightarrow>
          if cache_has c (productCacheKey (JNum ident)) (perf_now e)
          then (case cache_get c (productCacheKey (JNum ident)) (perf_now e) of
                  (v, c') \<Rightarrow> (Inr v, this\<lparr>cache := Some c'\<rparr>, []))
          else fetchProduct e this ident
      | None \<Rightarrow> fetchProduct e this ident)"

subsection \<open>Orders\<close>

text \<open>\<open>createOrder\<close>, lines 202-210: the order is posted as it is given, and the body of
  the response is parsed with the order schema.\<close>

definition createOrder ::
  "env \<Rightarrow> ApliiqClient \<Rightarrow> jsval \<Rightarrow> (ApliiqError + jsval) \<times> ApliiqClient \<times> request list" where
  "createOrder e this order =
     (case client_request e (config this) ''POST'' ''/Order'' order of
        (Inl err, sent) \<Rightarrow> (Inl (handleError err), this, sent)
      | (Inr resp, sent) \<Rightarrow>
          (case parse ApliiqOrderSchema (data resp) of
             Inl err \<Rightarrow> (Inl (handleError err), this, sent)
           | Inr v \<Rightarrow> (Inr v, this, sent)))"

subsection \<open>Clearing the cache\<close>

text \<open>\<open>clearCache\<close>, lines 215-220.\<close>

definition clearCache :: "ApliiqClient \<Rightarrow> ApliiqClient" where
  "clearCache this =
     (case active_cache this of
        Some c \<Rightarrow> this\<lparr>cache := Some (cache_clear c)\<rparr>
      | None \<Rightarrow> this)"



section \<open>The earlier client (\<open>src/unnamed/part_002\<close>)\<close>

text \<open>
  The sources hold an earlier revision of \<open>src/client.ts\<close> as well. Its interceptor,
  \<open>handleError\<close>, \<open>getProducts\<close> and \<open>createOrder\<close> differ from the ones above and are
  given here under the suffix \<open>_part_002\<close>. These operations do not touch its cache.
\<close>

text \<open>The request interceptor, lines 40-57 of \<open>part_002\<close>.\<close>

definition request_interceptor_part_002 :: "env \<Rightarrow> ApliiqConfig \<Rightarrow> request \<Rightarrow> request" where
  "request_interceptor_part_002 e cfg req =
     (let rts = show_nat (date_now e div 1000);
          state = generateNonce e;
          body = (if truthy (req_data req) then JSON_stringify e (req_data req) else '''');
          base64Content = base64 e body;
          signatureData = appId cfg @ rts @ state @ base64Content;
          sig = hmac_sha256_base64 e (sharedSecret cfg) signatureData
      in req\<lparr>headers := (headers req)
           (''x-apliiq-auth'' \<mapsto> rts @ '':'' @ sig @ '':'' @ appId cfg @ '':'' @ state)\<rparr>)"

definition client_request_part_002 ::
  "env \<Rightarrow> ApliiqConfig \<Rightarrow> string \<Rightarrow> string \<Rightarrow> jsval \<Rightarrow> (thrown + response) \<times> request list" where
  "client_request_part_002 e cfg m path body =
     (let req = request_interceptor_part_002 e cfg
                  \<lparr>req_method = m, url = path, req_data = body, headers = default_headers\<rparr>
      in (case transport e req of
            Inl msg \<Rightarrow> Inl (AxiosError msg None)
          | Inr r \<Rightarrow>
              if 200 \<le> status r \<and> status r < 300 then Inr r
              else Inl (AxiosError (''Request failed with status code '' @ show_nat (status r)) (Some r)),
          [req]))"

text \<open>\<open>handleError\<close>, lines 123-140 of \<open>part_002\<close>.\<close>

fun handleError_part_002 :: "thrown \<Rightarrow> ApliiqError" where
  "handleError_part_002 (ZodError errors) =
     \<lparr>message = JStr (''Validation failed: '' @ join_strings '', '' (map issue_message errors)),
      statusCode = 400, details = JUndefined\<rparr>"
| "handleError_part_002 (AxiosError msg resp) =
     \<lparr>message =
        (let m = (case resp of None \<Rightarrow> JUndefined | Some r \<Rightarrow> prop_opt (data r) ''message'')
         in if truthy m then m else JStr msg),
      statusCode = (case resp of None \<Rightarrow> 500 | Some r \<Rightarrow> if status r \<noteq> 0 then status r else 500),
      details = (case resp of None \<Rightarrow> JUndefined | Some r \<Rightarrow> data r)\<rparr>"
| "handleError_part_002 (JsError msg) =
     \<lparr>message = JStr ''Unknown error occurred'', statusCode = 500, details = JUndefined\<rparr>"
| "handleError_part_002 (NonError v) =
     \<lparr>message = JStr ''Unknown error occurred'', statusCode = 500, details = JUndefined\<rparr>"

text \<open>\<open>getProducts\<close>, lines 64-71 of \<open>part_002\<close>.\<close>

definition getProducts_part_002 :: "env \<Rightarrow> ApliiqConfig \<Rightarrow> (ApliiqError + jsval) \<times> request list" where
  "getProducts_part_002 e cfg =
     (case client_request_part_002 e cfg ''GET'' ''/api/Product'' JUndefined of
        (Inl err, sent) \<Rightarrow> (Inl (handleError_part_002 err), sent)
      | (Inr resp, sent) \<Rightarrow>
          (case parse (z_array ProductSchema None) (data resp) of
             Inl err \<Rightarrow> (Inl (handleError_part_002 err), sent)
           | Inr v \<Rightarrow> (Inr v, sent)))"

text \<open>\<open>createOrder\<close>, lines 101-117 of \<open>part_002\<close>.\<close>

definition createOrder_part_002 ::
  "env \<Rightarrow> ApliiqConfig \<Rightarrow> jsval \<Rightarrow> (ApliiqError + jsval) \<times> request list" where
  "createOrder_part_002 e cfg orderData =
     (case parse ApliiqOrderSchema orderData of
        Inl err \<Rightarrow> (Inl (handleError_part_002 err), [])
      | Inr parsedData \<Rightarrow>
          (case client_request_part_002 e cfg ''POST'' ''/Order'' parsedData of
             (Inl err, sent) \<Rightarrow> (Inl (handleError_part_002 err), sent)
           | (Inr resp, sent) \<Rightarrow> (Inr (data resp), sent)))"

section \<open>Notions the properties are stated with\<close>

text \<open>The number a string of decimal digits denotes.\<close>

definition digit_value :: "char \<Rightarrow> nat" where
  "digit_value c = length (takeWhile (\<lambda>d. d \<noteq> c) ''0123456789'')"

definition read_nat :: "string \<Rightarrow> nat" where
  "read_nat s = foldl (\<lambda>acc c. 10 * acc + digit_value c) 0 s"

text \<open>The time-to-live an entry gets from \<open>set\<close> with the option \<open>ttl_opt\<close>.\<close>

definition effective_ttl :: "LRUCache \<Rightarrow> nat option \<Rightarrow> nat" where
  "effective_ttl c ttl_opt = (case ttl_opt of None \<Rightarrow> opt_ttl c | Some t \<Rightarrow> t)"

text \<open>How many entries have been used more recently than the entry of \<open>k\<close>.\<close>

definition position :: "string \<Rightarrow> entry list \<Rightarrow> nat" where
  "position k es = length (takeWhile (\<lambda>e. ekey e \<noteq> k) es)"

text \<open>The products of a list that \<open>getProducts\<close> stores under the key \<open>k\<close>.\<close>

definition stored_under :: "string \<Rightarrow> jsval list \<Rightarrow> jsval list" where
  "stored_under k ps =
     filter (\<lambda>p. truthy (prop_opt p ''Id'') \<and> productCacheKey (prop_opt p ''Id'') = k) ps"

text \<open>The product list can be stored: the cache is off, or the \<open>forEach\<close> of
  \<open>getProducts\<close> can read the \<open>Id\<close> of every element.\<close>

definition storable :: "ApliiqClient \<Rightarrow> jsval list \<Rightarrow> bool" where
  "storable this ps = (active_cache this = None \<or> (JNull \<notin> set ps \<and> JUndefined \<notin> set ps))"

text \<open>A run of \<open>getProducts\<close> calls, one per environment, each on the client the
  previous call left: the results and the requests sent, call by call.\<close>

fun getProducts_calls ::
  "env list \<Rightarrow> ApliiqClient \<Rightarrow> ((ApliiqError + jsval) \<times> request list) list" where
  "getProducts_calls [] this = []"
| "getProducts_calls (e # es) this =
     (case getProducts e this of
        (r, this', sent) \<Rightarrow> (r, sent) # getProducts_calls es this')"

section \<open>Example inputs\<close>

text \<open>
  An environment whose transport answers every request with the given status and body,
  whose clock reads \<open>t\<close> when a call starts and \<open>t'\<close> when its response arrives, and
  whose platform functions are stand-ins that keep their arguments visible.
\<close>

definition example_env :: "nat \<Rightarrow> jsval \<Rightarrow> nat \<Rightarrow> nat \<Rightarrow> env" where
  "example_env st body t t' =
     \<lparr>perf_now = t, perf_now_response = t', date_now = 1700000000123,
      randomBytes = (\<lambda>n. take n [0x3a, 0x7f, 0x00, 0xff, 0x10, 0x2b, 0x9c, 0xd4,
                                   0x55, 0x61, 0xe8, 0x0d, 0x72, 0xa9, 0xb3, 0xc6]),
      transport = (\<lambda>r. Inr \<lparr>status = st, data = body\<rparr>),
      JSON_stringify = (\<lambda>v. ''json''),
      base64 = (\<lambda>s. ''b64('' @ s @ '')''),
      hmac_sha256_base64 = (\<lambda>k m. ''hmac('' @ k @ '','' @ m @ '')'')\<rparr>"

definition example_config :: "CacheConfig option \<Rightarrow> ApliiqConfig" where
  "example_config cc =
     \<lparr>appId = ''app'', sharedSecret = ''secret'', endpoint = None, timeout = None,
      cacheConfig = cc\<rparr>"

definition example_request :: request where
  "example_request =
     \<lparr>req_method = ''GET'', url = ''/Product'', req_data = JUndefined, headers = default_headers\<rparr>"

text \<open>Caching enabled, with the given capacity and time-to-live.\<close>

definition example_cache :: "nat option \<Rightarrow> nat option \<Rightarrow> CacheConfig option" where
  "example_cache m t =
     Some \<lparr>enabled = True, cfg_max = m, cfg_ttl = t, staleWhileRevalidate = None, products = None\<rparr>"

text \<open>The line item, the shipping address and the order of the README's example.\<close>

definition example_line_item :: "string \<Rightarrow> string \<Rightarrow> jsval" where
  "example_line_item price sku =
     JObj [(''id'', JStr ''1511138222''), (''title'', JStr ''cotton heritage polly pocket''),
           (''quantity'', JNum 1), (''price'', JStr price), (''sku'', JStr sku)]"

definition example_address :: "(string \<times> jsval) list \<Rightarrow> jsval" where
  "example_address province_code =
     JObj ([(''first_name'', JStr ''john''), (''last_name'', JStr ''smith''),
            (''address1'', JStr ''1692 Avenue du Mont-Royal Est''),
            (''city'', JStr ''los angeles''), (''zip'', JStr ''90013''),
            (''province'', JStr ''California''), (''country'', JStr ''United States''),
            (''country_code'', JStr ''US'')] @ province_code)"

definition example_order :: "jsval \<Rightarrow> jsval \<Rightarrow> jsval" where
  "example_order item address =
     JObj [(''number'', JNum 1006), (''name'', JStr ''#1006''), (''order_number'', JNum 1006),
           (''line_items'', JArr [item]), (''shipping_address'', address)]"

text \<open>A product, and a client whose cache holds a product list, two products of it and an
  entry under a key of no product.\<close>

definition example_product :: "int \<Rightarrow> jsval" where
  "example_product i = JObj [(''Id'', JNum i), (''Name'', JStr ''womens t shirt'')]"

definition example_store :: LRUCache where
  "example_store =
     \<lparr>entries =
        [\<lparr>ekey = ''apliiq:product:162'', evalue = example_product 162, estart = 1000, ettl = 60000\<rparr>,
         \<lparr>ekey = ''apliiq:products:all'', evalue = JArr [example_product 162, example_product 7],
          estart = 1000, ettl = 180000\<rparr>,
         \<lparr>ekey = ''apliiq:product:7'', evalue = example_product 7, estart = 1000, ettl = 60000\<rparr>,
         \<lparr>ekey = ''other'', evalue = JNull, estart = 1000, ettl = 0\<rparr>],
      opt_max = 1000, opt_ttl = 300000, opt_allowStale = False, opt_updateAgeOnGet = True\<rparr>"

definition example_cached_client :: ApliiqClient where
  "example_cached_client =
     \<lparr>config = example_config (example_cache None None), cache = Some example_store,
      cacheEnabled = True\<rparr>"

section \<open>What an accepted value satisfies\<close>

lemma merge_status_Valid: "merge_status ss = Valid \<longleftrightarrow> (\<forall>s\<in>set ss. s = Valid)"
proof
  assume "merge_status ss = Valid"
  then have none: "Aborted \<notin> set ss" "Dirty \<notin> set ss"
    by (auto simp: merge_status_def split: if_splits)
  show "\<forall>s\<in>set ss. s = Valid"
  proof
    fix s assume "s \<in> set ss"
    with none show "s = Valid" by (cases s) auto
  qed
next
  assume "\<forall>s\<in>set ss. s = Valid"
  then show "merge_status ss = Valid"
    by (auto simp: merge_status_def)
qed

lemma invalid_type_Aborted [simp]: "fst (invalid_type t v) = Aborted"
  by (simp add: invalid_type_def)

lemma z_object_is_object:
  assumes "fst (z_object shape v) \<noteq> Aborted"
  obtains kvs where "v = JObj kvs"
  using assms by (cases v) (simp_all add: z_object_def)

lemma z_object_Valid_field:
  assumes "fst (z_object shape v) = Valid" and "(k, s) \<in> set shape"
  shows "fst (s (prop_opt v k)) = Valid"
proof -
  from assms(1) have "fst (z_object shape v) \<noteq> Aborted" by simp
  then obtain kvs where v: "v = JObj kvs"
    by (rule z_object_is_object)
  from assms(1) have "merge_status (map (\<lambda>(k, r). fst r) (map (\<lambda>(k, s). (k, s (prop_opt v k))) shape)) = Valid"
    by (simp add: v z_object_def Let_def)
  then have "\<forall>x\<in>set shape. fst ((snd x) (prop_opt v (fst x))) = Valid"
    by (auto simp: merge_status_Valid split_beta)
  with assms(2) show ?thesis by force
qed

lemma z_object_out_field:
  assumes "fst (z_object shape v) \<noteq> Aborted" and "distinct (map fst shape)" and "(k, s) \<in> set shape"
  shows "prop_opt (fst (snd (z_object shape v))) k = fst (snd (s (prop_opt v k)))"
proof -
  from assms(1) obtain kvs where v: "v = JObj kvs"
    by (rule z_object_is_object)
  define f where "f = (\<lambda>(k :: string, s :: schema). (k, s (prop_opt v k)))"
  define keep where "keep = (\<lambda>(k :: string, r :: zresult). fst (snd r) \<noteq> JUndefined \<or> k \<in> fst ` set kvs)"
  define g where "g = (\<lambda>(k :: string, r :: zresult). (k, fst (snd r)))"
  have out: "fst (snd (z_object shape v)) = JObj (map g (filter keep (map f shape)))"
    by (simp add: v z_object_def Let_def f_def keep_def g_def)
  have look: "map_of (map g (filter keep (map f shape))) k
        = (if keep (k, s (prop_opt v k)) then Some (fst (snd (s (prop_opt v k)))) else None)"
    using assms(2,3)
  proof (induction shape)
    case Nil
    then show ?case by simp
  next
    case (Cons a shape)
    obtain k' s' where a: "a = (k', s')" by (cases a)
    show ?case
    proof (cases "k' = k")
      case True
      with Cons.prems a have s': "s' = s" and notin: "k \<notin> fst ` set shape"
        by (auto simp: image_iff)
      from notin have "map_of (map g (filter keep (map f shape))) k = None"
        by (force simp: map_of_eq_None_iff f_def g_def image_iff)
      with True a s' show ?thesis by (simp add: f_def g_def)
    next
      case False
      with Cons a show ?thesis by (auto simp: f_def g_def)
    qed
  qed
  show ?thesis
    unfolding out by (simp add: look) (simp add: keep_def)
qed

lemma z_string_value [simp]: "fst (snd (z_string cs v)) = v"
  by (cases v) (simp_all add: z_string_def invalid_type_def Let_def)

lemma z_number_value [simp]: "fst (snd (z_number cs v)) = v"
  by (cases v) (simp_all add: z_number_def invalid_type_def Let_def)

lemma z_optional_value: "(\<And>v. fst (snd (s v)) = v) \<Longrightarrow> fst (snd (z_optional s v)) = v"
  by (simp add: z_optional_def)

lemma z_string_Valid:
  assumes "fst (z_string cs v) = Valid"
  obtains s where "v = JStr s" and "run_checks cs s = []"
  using assms by (cases v) (simp_all add: z_string_def Let_def split: if_splits)

lemma z_number_Valid:
  assumes "fst (z_number cs v) = Valid"
  obtains n where "v = JNum n" and "run_checks cs n = []"
  using assms by (cases v) (simp_all add: z_number_def Let_def split: if_splits)

lemma run_checks_single: "run_checks [c] x = [] \<longleftrightarrow> c x = None"
  by (cases "c x") (simp_all add: run_checks_def List.map_filter_def)

lemma parse_Inr:
  "parse s v = Inr out \<longleftrightarrow> fst (s v) = Valid \<and> out = fst (snd (s v))"
  by (cases "s v") (auto simp: parse_def)

lemma z_refine_Valid:
  "fst (z_refine inner check msg v) = Valid \<longleftrightarrow> fst (inner v) = Valid \<and> check (fst (snd (inner v)))"
  by (cases "inner v") (auto simp: z_refine_def)

lemma z_refine_value: "fst (snd (z_refine inner check msg v)) = fst (snd (inner v))"
  by (cases "inner v") (auto simp: z_refine_def)

lemma z_superRefine_Valid:
  "fst (z_superRefine inner r v) = Valid \<longleftrightarrow> fst (inner v) = Valid \<and> r (fst (snd (inner v))) = []"
  by (cases "inner v") (auto simp: z_superRefine_def)

lemma line_item_accepted:
  assumes "parse LineItemSchema item = Inr out"
  shows "(\<exists>q. prop_opt item ''quantity'' = JNum q \<and> 0 < q)
       \<and> (\<exists>p. prop_opt item ''price'' = JStr p \<and> price_regex p)
       \<and> (\<exists>s. prop_opt item ''sku'' = JStr s \<and> startsWith s ''APQ-'')
       \<and> (truthy (prop_opt item ''title'') \<or> truthy (prop_opt item ''name''))"
proof -
  let ?shape = LineItemShape
  from assms have "fst (LineItemSchema item) = Valid"
    by (simp only: parse_Inr)
  then have valid: "fst (z_object ?shape item) = Valid"
    and check: "truthy (prop_opt (fst (snd (z_object ?shape item))) ''title'')
              \<or> truthy (prop_opt (fst (snd (z_object ?shape item))) ''name'')"
    unfolding LineItemSchema_def z_refine_Valid by blast+
  have q: "\<exists>q. prop_opt item ''quantity'' = JNum q \<and> 0 < q"
  proof -
    have "fst (z_number [positive] (prop_opt item ''quantity'')) = Valid"
      by (rule z_object_Valid_field [OF valid, of "''quantity''" "z_number [positive]"]) (simp add: LineItemShape_def)
    then obtain n where "prop_opt item ''quantity'' = JNum n" and "run_checks [positive] n = []"
      by (rule z_number_Valid)
    then show ?thesis
      by (auto simp: run_checks_single positive_def split: if_splits)
  qed
  have p: "\<exists>p. prop_opt item ''price'' = JStr p \<and> price_regex p"
  proof -
    have "fst (z_string [regex price_regex] (prop_opt item ''price'')) = Valid"
      by (rule z_object_Valid_field [OF valid, of "''price''" "z_string [regex price_regex]"]) (simp add: LineItemShape_def)
    then obtain n where "prop_opt item ''price'' = JStr n" and "run_checks [regex price_regex] n = []"
      by (rule z_string_Valid)
    then show ?thesis
      by (auto simp: run_checks_single regex_def split: if_splits)
  qed
  have s: "\<exists>s. prop_opt item ''sku'' = JStr s \<and> startsWith s ''APQ-''"
  proof -
    have "fst (z_string [z_startsWith ''APQ-''] (prop_opt item ''sku'')) = Valid"
      by (rule z_object_Valid_field [OF valid, of "''sku''" "z_string [z_startsWith ''APQ-'']"]) (simp add: LineItemShape_def)
    then obtain n where "prop_opt item ''sku'' = JStr n" and "run_checks [z_startsWith ''APQ-''] n = []"
      by (rule z_string_Valid)
    then show ?thesis
      by (auto simp: run_checks_single z_startsWith_def split: if_splits)
  qed
  have na: "fst (z_object ?shape item) \<noteq> Aborted" using valid by simp
  have d: "distinct (map fst ?shape)" by (simp add: LineItemShape_def)
  have "prop_opt (fst (snd (z_object ?shape item))) ''title'' = prop_opt item ''title''"
    using z_object_out_field [OF na d, of "''title''" "z_optional (z_string [])"]
    by (simp add: LineItemShape_def z_optional_def)
  moreover have "prop_opt (fst (snd (z_object ?shape item))) ''name'' = prop_opt item ''name''"
    using z_object_out_field [OF na d, of "''name''" "z_optional (z_string [])"]
    by (simp add: LineItemShape_def z_optional_def)
  ultimately have "truthy (prop_opt item ''title'') \<or> truthy (prop_opt item ''name'')"
    using check by simp
  with q p s show ?thesis by blast
qed

section \<open>Numerals and cache keys\<close>

subsection \<open>Decimal numerals\<close>

lemma digit_value_digit_char: "d < 10 \<Longrightarrow> digit_value (digit_char d) = d"
proof -
  assume "d < 10"
  then have "d \<in> {0, 1, 2, 3, 4, 5, 6, 7, 8, 9}" by auto
  then show ?thesis
    by (auto simp: digit_value_def digit_char_def)
qed

lemma read_nat_snoc: "read_nat (s @ [c]) = 10 * read_nat s + digit_value c"
  by (simp add: read_nat_def)

lemma read_show_nat: "read_nat (show_nat n) = n"
proof (induction n rule: show_nat.induct)
  case (1 n)
  show ?case
  proof (cases "n < 10")
    case True
    then show ?thesis
      by (subst show_nat.simps) (simp add: read_nat_def digit_value_digit_char)
  next
    case False
    with "1" have "read_nat (show_nat (n div 10)) = n div 10" by simp
    with False show ?thesis
      by (subst show_nat.simps) (simp add: read_nat_snoc digit_value_digit_char)
  qed
qed

lemma show_nat_inj: "show_nat m = show_nat n \<Longrightarrow> m = n"
  by (metis read_show_nat)

lemma digit_char_is_digit: "d < 10 \<Longrightarrow> is_digit (digit_char d)"
proof -
  assume "d < 10"
  then have "d \<in> {0, 1, 2, 3, 4, 5, 6, 7, 8, 9}" by auto
  then show ?thesis
    by (auto simp: is_digit_def digit_char_def)
qed

lemma show_nat_digits: "\<forall>c\<in>set (show_nat n). is_digit c"
proof (induction n rule: show_nat.induct)
  case (1 n)
  show ?case
  proof (cases "n < 10")
    case True
    then show ?thesis
      by (subst show_nat.simps) (simp add: digit_char_is_digit)
  next
    case False
    with "1" have "\<forall>c\<in>set (show_nat (n div 10)). is_digit c" by simp
    with False show ?thesis
      by (subst show_nat.simps) (simp add: digit_char_is_digit)
  qed
qed

lemma show_nat_not_Nil: "show_nat n \<noteq> []"
  by (subst show_nat.simps) simp

lemma show_nat_no_minus: "hd (show_nat n) \<noteq> CHR ''-''"
proof -
  have "hd (show_nat n) \<in> set (show_nat n)"
    by (simp add: show_nat_not_Nil)
  with show_nat_digits have "is_digit (hd (show_nat n))" by blast
  then show ?thesis by (auto simp: is_digit_def)
qed

lemma show_int_inj: "show_int i = show_int j \<Longrightarrow> i = j"
proof -
  assume eq: "show_int i = show_int j"
  have neg: False if "show_int a = show_int b" "a < 0" "\<not> b < 0" for a b
  proof -
    from that have "CHR ''-'' # show_nat (nat (- a)) = show_nat (nat b)"
      by (simp add: show_int_def)
    then have "hd (show_nat (nat b)) = CHR ''-''" by (metis list.sel(1))
    with show_nat_no_minus show False by blast
  qed
  consider "i < 0" "j < 0" | "i < 0" "\<not> j < 0" | "\<not> i < 0" "j < 0" | "\<not> i < 0" "\<not> j < 0" by blast
  then show "i = j"
  proof cases
    case 1
    with eq have "nat (- i) = nat (- j)" by (auto simp: show_int_def dest: show_nat_inj)
    with 1 show ?thesis by simp
  next
    case 2
    with neg [OF eq] show ?thesis by blast
  next
    case 3
    with neg [OF eq [symmetric]] show ?thesis by blast
  next
    case 4
    with eq have "nat i = nat j" by (auto simp: show_int_def dest: show_nat_inj)
    with 4 show ?thesis by simp
  qed
qed

lemma productCacheKey_inj: "productCacheKey (JNum i) = productCacheKey (JNum j) \<Longrightarrow> i = j"
  by (simp add: productCacheKey_def show_int_inj)

lemma productCacheKey_not_list: "productCacheKey v \<noteq> productsCacheKey"
  by (simp add: productCacheKey_def productsCacheKey_def cacheKeyPrefix_def)


lemma productsCacheKey_no_prefix: "\<not> startsWith productsCacheKey (cacheKeyPrefix @ ''product:'')"
  by (simp add: productsCacheKey_def startsWith_def cacheKeyPrefix_def)

subsection \<open>Hexadecimal strings\<close>

lemma hex_char_hex: "d < 16 \<Longrightarrow> hex_char d \<in> set ''0123456789abcdef''"
proof -
  assume "d < 16"
  then have "d \<in> {0, 1, 2, 3, 4, 5, 6, 7, 8, 9, 10, 11, 12, 13, 14, 15}" by auto arith
  then show ?thesis
    by (auto simp: hex_char_def)
qed

lemma length_toHex: "length (toHex bs) = 2 * length bs"
  by (induction bs) (simp_all add: toHex_def)

lemma unat_byte_div16: "unat (b :: 8 word) div 16 < 16"
proof -
  have "unat b < 256" using unsigned_less [of b] by simp
  then show ?thesis by simp
qed

lemma set_toHex: "set (toHex bs) \<subseteq> set ''0123456789abcdef''"
proof (induction bs)
  case Nil
  then show ?case by (simp add: toHex_def)
next
  case (Cons b bs)
  have "hex_char (unat b div 16) \<in> set ''0123456789abcdef''"
    by (rule hex_char_hex) (rule unat_byte_div16)
  moreover have "hex_char (unat b mod 16) \<in> set ''0123456789abcdef''"
    by (rule hex_char_hex) simp
  ultimately show ?case
    using Cons by (simp add: toHex_def)
qed

lemmas example_defs = example_env_def example_config_def example_cache_def
lemmas client_defs = client_request_def request_interceptor_def new_ApliiqClient_def active_cache_def
lemmas zod_defs = parse_def z_object_def z_number_def z_string_def z_array_def z_refine_def
  z_superRefine_def z_optional_def z_any_def z_enum_def run_checks_def positive_def regex_def
  z_startsWith_def startsWith_def z_length_def price_regex_def is_digit_def merge_status_def
  invalid_type_def List.map_filter_def
lemmas schema_defs = ApliiqOrderSchema_def LineItemSchema_def LineItemShape_def
  ShippingAddressSchema_def ShippingAddressShape_def
  ProductSchema_def ProductSizeSchema_def ColorSchema_def ServiceSchema_def ServiceColorSchema_def
  SubscriptionSchema_def LocationSchema_def
lemmas order_defs = example_order_def example_line_item_def example_address_def

section \<open>The product list of a response\<close>

lemma getProducts_miss:
  assumes "\<forall>c. active_cache this = Some c \<longrightarrow> \<not> cache_has c productsCacheKey (perf_now e)"
  shows "getProducts e this = fetchProducts e this"
  using assms by (auto simp: getProducts_def split: option.splits)

lemma cacheEachProduct_None:
  "JNull \<notin> set ps \<Longrightarrow> JUndefined \<notin> set ps \<Longrightarrow> fst (cacheEachProduct cfg now ps c) = None"
  by (induction ps arbitrary: c) auto

lemma fetchProducts_result:
  assumes "fst (client_request e (config this) ''GET'' ''/Product'' JUndefined) = Inr resp"
  shows "fst (fetchProducts e this) =
     (case extractProducts (data resp) of
        Inl err \<Rightarrow> Inl (handleError err)
      | Inr ps \<Rightarrow>
          (case active_cache this of
             None \<Rightarrow> Inr (JArr ps)
           | Some c \<Rightarrow>
               (case fst (cacheEachProduct (config this) (perf_now_response e) ps
                           (cache_set c productsCacheKey (JArr ps) (productsTTL (config this))
                              (perf_now_response e))) of
                  Some err \<Rightarrow> Inl (handleError err)
                | None \<Rightarrow> Inr (JArr ps))))"
proof -
  obtain r sent where cr: "client_request e (config this) ''GET'' ''/Product'' JUndefined = (r, sent)"
    by (cases "client_request e (config this) ''GET'' ''/Product'' JUndefined")
  with assms have "r = Inr resp" by simp
  with cr show ?thesis
    by (auto simp: fetchProducts_def split: sum.splits option.splits prod.splits)
qed

lemma fetchProducts_storable:
  assumes "fst (client_request e (config this) ''GET'' ''/Product'' JUndefined) = Inr resp"
    and "extractProducts (data resp) = Inr ps" and "storable this ps"
  shows "fst (fetchProducts e this) = Inr (JArr ps)"
  using assms(2,3)
  by (auto simp: fetchProducts_result [OF assms(1)] storable_def cacheEachProduct_None
           split: option.splits)

lemma fetchProducts_error:
  assumes "fst (client_request e (config this) ''GET'' ''/Product'' JUndefined) = Inr resp"
    and "extractProducts (data resp) = Inl err"
  shows "fst (fetchProducts e this) = Inl (handleError err)"
  using assms(2) by (simp add: fetchProducts_result [OF assms(1)])

lemma extract_array:
  "prop_opt (first_element es) ''Products'' = JArr ps \<Longrightarrow> extractProducts (JArr es) = Inr ps"
  by (simp add: extractProducts_def)

lemma extract_array_error:
  "\<not> isArray (prop_opt (first_element es) ''Products'') \<Longrightarrow>
     extractProducts (JArr es) = Inl (JsError ''Unexpected array structure - missing Products key'')"
  by (cases "prop_opt (first_element es) ''Products''") (simp_all add: extractProducts_def)

lemma extract_object_Products:
  "prop_opt (JObj kvs) ''Products'' = JArr ps \<Longrightarrow> extractProducts (JObj kvs) = Inr ps"
  by (simp add: extractProducts_def)

lemma extract_object_products:
  "\<not> isArray (prop_opt (JObj kvs) ''Products'') \<Longrightarrow> prop_opt (JObj kvs) ''products'' = JArr ps \<Longrightarrow>
     extractProducts (JObj kvs) = Inr ps"
  by (simp add: extractProducts_def)

lemma extract_object_items:
  "\<not> isArray (prop_opt (JObj kvs) ''Products'') \<Longrightarrow> \<not> isArray (prop_opt (JObj kvs) ''products'') \<Longrightarrow>
   prop_opt (JObj kvs) ''items'' = JArr ps \<Longrightarrow> extractProducts (JObj kvs) = Inr ps"
  by (simp add: extractProducts_def)

lemma extract_object_none:
  "\<not> isArray (prop_opt (JObj kvs) ''Products'') \<Longrightarrow> \<not> isArray (prop_opt (JObj kvs) ''products'') \<Longrightarrow>
   \<not> isArray (prop_opt (JObj kvs) ''items'') \<Longrightarrow> extractProducts (JObj kvs) = Inr []"
  by (simp add: extractProducts_def)

lemma extract_other:
  "\<not> isArray body \<Longrightarrow> (\<forall>kvs. body \<noteq> JObj kvs) \<Longrightarrow>
     extractProducts body = Inl (JsError (''Unexpected response type: '' @ typeof body))"
  by (cases body) (simp_all add: extractProducts_def)

text \<open>
  Claim C1, as the code has it. On a call of \<open>getProducts\<close> that reaches the server (the
  cache is off or holds no live product list) and gets a response with a success status,
  the body is read in this order. An array is taken by its first element: when that
  element holds an array under \<open>Products\<close>, that array is the product list, otherwise
  the call fails with status 500 and the message "Unexpected array structure - missing
  Products key". An object is probed for \<open>Products\<close>, \<open>products\<close> and \<open>items\<close> in this
  order, and the first of them that holds an array gives the list; an object in which none
  of them holds an array, the empty object among them, gives the empty list and no error.
  Any other body fails with status 500 and the message "Unexpected response type: "
  followed by \<open>typeof\<close> of the body. (A list is returned when it can be stored: with the
  cache on, no element of it may be null.)
\<close>

theorem C1_getProducts_shapes:
  assumes miss: "\<forall>c. active_cache this = Some c \<longrightarrow> \<not> cache_has c productsCacheKey (perf_now e)"
    and resp: "fst (client_request e (config this) ''GET'' ''/Product'' JUndefined) = Inr resp"
  shows
    "(\<forall>es ps. data resp = JArr es \<and> prop_opt (first_element es) ''Products'' = JArr ps \<and> storable this ps
        \<longrightarrow> fst (getProducts e this) = Inr (JArr ps))
   \<and> (\<forall>es. data resp = JArr es \<and> \<not> isArray (prop_opt (first_element es) ''Products'')
        \<longrightarrow> fst (getProducts e this) =
              Inl \<lparr>message = JStr ''Unexpected array structure - missing Products key'',
                   statusCode = 500, details = JUndefined\<rparr>)
   \<and> (\<forall>kvs ps. data resp = JObj kvs \<and> prop_opt (data resp) ''Products'' = JArr ps \<and> storable this ps
        \<longrightarrow> fst (getProducts e this) = Inr (JArr ps))
   \<and> (\<forall>kvs ps. data resp = JObj kvs \<and> \<not> isArray (prop_opt (data resp) ''Products'')
          \<and> prop_opt (data resp) ''products'' = JArr ps \<and> storable this ps
        \<longrightarrow> fst (getProducts e this) = Inr (JArr ps))
   \<and> (\<forall>kvs ps. data resp = JObj kvs \<and> \<not> isArray (prop_opt (data resp) ''Products'')
          \<and> \<not> isArray (prop_opt (data resp) ''products'')
          \<and> prop_opt (data resp) ''items'' = JArr ps \<and> storable this ps
        \<longrightarrow> fst (getProducts e this) = Inr (JArr ps))
   \<and> (\<forall>kvs. data resp = JObj kvs \<and> \<not> isArray (prop_opt (data resp) ''Products'')
          \<and> \<not> isArray (prop_opt (data resp) ''products'')
          \<and> \<not> isArray (prop_opt (data resp) ''items'')
        \<longrightarrow> fst (getProducts e this) = Inr (JArr []))
   \<and> (\<not> isArray (data resp) \<and> (\<forall>kvs. data resp \<noteq> JObj kvs)
        \<longrightarrow> fst (getProducts e this) =
              Inl \<lparr>message = JStr (''Unexpected response type: '' @ typeof (data resp)),
                   statusCode = 500, details = JUndefined\<rparr>)"
proof -
  note fetch = getProducts_miss [OF miss]
  note ok = fetchProducts_storable [OF resp]
  note bad = fetchProducts_error [OF resp]
  have empty: "storable this []" by (simp add: storable_def)
  show ?thesis
  proof (intro conjI allI impI; elim conjE)
    fix es ps
    assume "data resp = JArr es" "prop_opt (first_element es) ''Products'' = JArr ps" "storable this ps"
    then show "fst (getProducts e this) = Inr (JArr ps)"
      by (simp add: fetch ok extract_array)
  next
    fix es
    assume "data resp = JArr es" "\<not> isArray (prop_opt (first_element es) ''Products'')"
    then show "fst (getProducts e this) =
              Inl \<lparr>message = JStr ''Unexpected array structure - missing Products key'',
                   statusCode = 500, details = JUndefined\<rparr>"
      by (simp add: fetch bad [OF extract_array_error [of es, folded \<open>data resp = JArr es\<close>]])
  next
    fix kvs ps
    assume "data resp = JObj kvs" "prop_opt (data resp) ''Products'' = JArr ps" "storable this ps"
    then show "fst (getProducts e this) = Inr (JArr ps)"
      by (simp add: fetch ok extract_object_Products)
  next
    fix kvs ps
    assume "data resp = JObj kvs" "\<not> isArray (prop_opt (data resp) ''Products'')"
      "prop_opt (data resp) ''products'' = JArr ps" "storable this ps"
    then show "fst (getProducts e this) = Inr (JArr ps)"
      by (simp add: fetch ok extract_object_products)
  next
    fix kvs ps
    assume "data resp = JObj kvs" "\<not> isArray (prop_opt (data resp) ''Products'')"
      "\<not> isArray (prop_opt (data resp) ''products'')"
      "prop_opt (data resp) ''items'' = JArr ps" "storable this ps"
    then show "fst (getProducts e this) = Inr (JArr ps)"
      by (simp add: fetch ok extract_object_items)
  next
    fix kvs
    assume "data resp = JObj kvs" "\<not> isArray (prop_opt (data resp) ''Products'')"
      "\<not> isArray (prop_opt (data resp) ''products'')" "\<not> isArray (prop_opt (data resp) ''items'')"
    then show "fst (getProducts e this) = Inr (JArr [])"
      by (simp add: fetch ok [OF _ empty] extract_object_none)
  next
    assume "\<not> isArray (data resp)" "\<forall>kvs. data resp \<noteq> JObj kvs"
    then show "fst (getProducts e this) =
              Inl \<lparr>message = JStr (''Unexpected response type: '' @ typeof (data resp)),
                   statusCode = 500, details = JUndefined\<rparr>"
      by (simp add: fetch bad [OF extract_other])
  qed
qed

text \<open>
  Claim C1 says that an object body with none of the known list fields, such as \<open>{}\<close>,
  makes \<open>getProducts\<close> fail. On the body \<open>{}\<close> the call returns the empty list, with the
  cache on and with the cache off.
\<close>

theorem C1_counterexample:
  "fst (getProducts (example_env 200 (JObj []) 1000 1050)
          (new_ApliiqClient (example_config (example_cache None None)))) = Inr (JArr [])
   \<and> fst (getProducts (example_env 200 (JObj []) 1000 1050)
          (new_ApliiqClient (example_config None))) = Inr (JArr [])"
  by (simp add: getProducts_def fetchProducts_def extractProducts_def client_defs example_defs
        cache_has_def lookup_entry_def)

section \<open>Order validation\<close>

subsection \<open>Prices\<close>

lemma not_digit_dot: "\<not> is_digit CHR ''.''"
  by (simp add: is_digit_def)

lemma price_regex_iff:
  "price_regex s \<longleftrightarrow>
     (\<exists>w a b. s = w @ [CHR ''.'', a, b] \<and> w \<noteq> [] \<and> (\<forall>c\<in>set (a # b # w). is_digit c))"
proof
  assume pr: "price_regex s"
  let ?w = "takeWhile is_digit s"
  from pr obtain d a b where rest: "dropWhile is_digit s = [d, a, b]"
    and dab: "d = CHR ''.''" "is_digit a" "is_digit b" and ne: "?w \<noteq> []"
    by (auto simp: price_regex_def split: list.splits)
  have "s = ?w @ dropWhile is_digit s" by simp
  with rest dab have "s = ?w @ [CHR ''.'', a, b]" by simp
  moreover have "\<forall>c\<in>set ?w. is_digit c" by (auto dest: set_takeWhileD)
  ultimately show "\<exists>w a b. s = w @ [CHR ''.'', a, b] \<and> w \<noteq> [] \<and> (\<forall>c\<in>set (a # b # w). is_digit c)"
    using ne dab by auto
next
  assume "\<exists>w a b. s = w @ [CHR ''.'', a, b] \<and> w \<noteq> [] \<and> (\<forall>c\<in>set (a # b # w). is_digit c)"
  then obtain w a b where s: "s = w @ [CHR ''.'', a, b]" and w: "w \<noteq> []" "\<forall>c\<in>set w. is_digit c"
    and ab: "is_digit a" "is_digit b" by auto
  from w(2) have "takeWhile is_digit s = w" "dropWhile is_digit s = [CHR ''.'', a, b]"
    by (simp_all add: s takeWhile_append2 dropWhile_append2 not_digit_dot)
  with w(1) ab show "price_regex s"
    by (simp add: price_regex_def)
qed

lemma price_one_decimal:
  assumes "\<forall>c\<in>set w. is_digit c"
  shows "\<not> price_regex (w @ [CHR ''.'', d])"
proof -
  from assms have "dropWhile is_digit (w @ [CHR ''.'', d]) = [CHR ''.'', d]"
    by (simp add: dropWhile_append2 not_digit_dot)
  then show ?thesis by (simp add: price_regex_def)
qed

subsection \<open>Shipping addresses\<close>

lemma shipping_address_accepted:
  assumes "parse ShippingAddressSchema addr = Inr out"
  shows "(\<exists>c. prop_opt addr ''country_code'' = JStr c \<and> length c = 2)
       \<and> (prop_opt addr ''country_code'' \<noteq> JStr ''US'' \<or> truthy (prop_opt addr ''province_code''))"
proof -
  let ?shape = ShippingAddressShape
  let ?r = "\<lambda>d. if prop_opt d ''country_code'' = JStr ''US'' \<and> \<not> truthy (prop_opt d ''province_code'')
            then [Issue ''province_code required for US addresses''] else []"
  from assms have "fst (ShippingAddressSchema addr) = Valid"
    by (simp only: parse_Inr)
  then have valid: "fst (z_object ?shape addr) = Valid"
    and check: "?r (fst (snd (z_object ?shape addr))) = []"
    unfolding ShippingAddressSchema_def z_superRefine_Valid by blast+
  have c: "\<exists>c. prop_opt addr ''country_code'' = JStr c \<and> length c = 2"
  proof -
    have "fst (z_string [z_length 2] (prop_opt addr ''country_code'')) = Valid"
      by (rule z_object_Valid_field [OF valid, of "''country_code''" "z_string [z_length 2]"])
         (simp add: ShippingAddressShape_def)
    then obtain n where "prop_opt addr ''country_code'' = JStr n" and "run_checks [z_length 2] n = []"
      by (rule z_string_Valid)
    then show ?thesis
      by (auto simp: run_checks_single z_length_def split: if_splits)
  qed
  have na: "fst (z_object ?shape addr) \<noteq> Aborted" using valid by simp
  have d: "distinct (map fst ?shape)" by (simp add: ShippingAddressShape_def)
  have "prop_opt (fst (snd (z_object ?shape addr))) ''country_code'' = prop_opt addr ''country_code''"
    using z_object_out_field [OF na d, of "''country_code''" "z_string [z_length 2]"]
    by (simp add: ShippingAddressShape_def)
  moreover have "prop_opt (fst (snd (z_object ?shape addr))) ''province_code'' = prop_opt addr ''province_code''"
    using z_object_out_field [OF na d, of "''province_code''" "z_optional (z_string [])"]
    by (simp add: ShippingAddressShape_def z_optional_def)
  ultimately have "prop_opt addr ''country_code'' \<noteq> JStr ''US'' \<or> truthy (prop_opt addr ''province_code'')"
    using check by (auto split: if_splits)
  with c show ?thesis by blast
qed

subsection \<open>Exactly what the schemas accept\<close>

lemma parse_accepts_iff: "(\<exists>out. parse s v = Inr out) \<longleftrightarrow> fst (s v) = Valid"
  by (cases "s v") (auto simp: parse_def)

lemma z_object_Valid_iff:
  "fst (z_object shape v) = Valid
     \<longleftrightarrow> (\<exists>kvs. v = JObj kvs) \<and> (\<forall>x\<in>set shape. fst ((snd x) (prop_opt v (fst x))) = Valid)"
proof (cases "\<exists>kvs. v = JObj kvs")
  case True
  then obtain kvs where v: "v = JObj kvs" by blast
  show ?thesis
    by (simp add: v z_object_def Let_def merge_status_Valid split_beta)
next
  case False
  then have "fst (z_object shape v) = Aborted"
    by (cases v) (simp_all add: z_object_def)
  with False show ?thesis by simp
qed

lemma z_array_Valid_iff:
  "fst (z_array element least (JArr xs)) = Valid
     \<longleftrightarrow> (case least of None \<Rightarrow> True | Some n \<Rightarrow> n \<le> length xs)
         \<and> (\<forall>x\<in>set xs. fst (element x) = Valid)"
  by (cases least) (auto simp: z_array_def Let_def merge_status_Valid)

lemma z_string_Valid_iff:
  "fst (z_string cs v) = Valid \<longleftrightarrow> (\<exists>s. v = JStr s \<and> run_checks cs s = [])"
  by (cases v) (simp_all add: z_string_def Let_def invalid_type_def)

lemma z_number_Valid_iff:
  "fst (z_number cs v) = Valid \<longleftrightarrow> (\<exists>n. v = JNum n \<and> run_checks cs n = [])"
  by (cases v) (simp_all add: z_number_def Let_def invalid_type_def)

lemma z_optional_Valid_iff:
  "fst (z_optional s v) = Valid \<longleftrightarrow> v = JUndefined \<or> fst (s v) = Valid"
  by (simp add: z_optional_def)

lemma run_checks_Nil [simp]: "run_checks [] x = []"
  by (simp add: run_checks_def List.map_filter_def)

lemma check_iffs:
  "run_checks [positive] n = [] \<longleftrightarrow> 0 < n"
  "run_checks [regex matches] s = [] \<longleftrightarrow> matches s"
  "run_checks [z_startsWith p] s = [] \<longleftrightarrow> startsWith s p"
  "run_checks [z_length k] s = [] \<longleftrightarrow> length s = k"
  by (simp_all add: run_checks_single positive_def regex_def z_startsWith_def z_length_def)

lemmas field_iffs = z_string_Valid_iff z_number_Valid_iff z_optional_Valid_iff check_iffs

lemma line_item_fields_iff:
  "fst (z_object LineItemShape item) = Valid \<longleftrightarrow>
     (\<exists>kvs. item = JObj kvs)
   \<and> (\<exists>s. prop_opt item ''id'' = JStr s)
   \<and> (prop_opt item ''title'' = JUndefined \<or> (\<exists>s. prop_opt item ''title'' = JStr s))
   \<and> (prop_opt item ''name'' = JUndefined \<or> (\<exists>s. prop_opt item ''name'' = JStr s))
   \<and> (\<exists>q. prop_opt item ''quantity'' = JNum q \<and> 0 < q)
   \<and> (\<exists>p. prop_opt item ''price'' = JStr p \<and> price_regex p)
   \<and> (\<exists>s. prop_opt item ''sku'' = JStr s \<and> startsWith s ''APQ-'')
   \<and> (prop_opt item ''grams'' = JUndefined \<or> (\<exists>n. prop_opt item ''grams'' = JNum n))"
  by (simp add: z_object_Valid_iff LineItemShape_def field_iffs)

lemma line_item_accepted_iff:
  "(\<exists>out. parse LineItemSchema item = Inr out) \<longleftrightarrow>
     (\<exists>kvs. item = JObj kvs)
   \<and> (\<exists>s. prop_opt item ''id'' = JStr s)
   \<and> (prop_opt item ''title'' = JUndefined \<or> (\<exists>s. prop_opt item ''title'' = JStr s))
   \<and> (prop_opt item ''name'' = JUndefined \<or> (\<exists>s. prop_opt item ''name'' = JStr s))
   \<and> (\<exists>q. prop_opt item ''quantity'' = JNum q \<and> 0 < q)
   \<and> (\<exists>p. prop_opt item ''price'' = JStr p \<and> price_regex p)
   \<and> (\<exists>s. prop_opt item ''sku'' = JStr s \<and> startsWith s ''APQ-'')
   \<and> (prop_opt item ''grams'' = JUndefined \<or> (\<exists>n. prop_opt item ''grams'' = JNum n))
   \<and> (truthy (prop_opt item ''title'') \<or> truthy (prop_opt item ''name''))"
proof -
  let ?V = "fst (z_object LineItemShape item) = Valid"
  let ?out = "fst (snd (z_object LineItemShape item))"
  have d: "distinct (map fst LineItemShape)" by (simp add: LineItemShape_def)
  have t: "prop_opt ?out ''title'' = prop_opt item ''title''" if ?V
    using z_object_out_field [OF _ d, of item "''title''" "z_optional (z_string [])"] that
    by (simp add: LineItemShape_def z_optional_def)
  have n: "prop_opt ?out ''name'' = prop_opt item ''name''" if ?V
    using z_object_out_field [OF _ d, of item "''name''" "z_optional (z_string [])"] that
    by (simp add: LineItemShape_def z_optional_def)
  have "fst (LineItemSchema item) = Valid
      \<longleftrightarrow> ?V \<and> (truthy (prop_opt item ''title'') \<or> truthy (prop_opt item ''name''))"
    unfolding LineItemSchema_def z_refine_Valid
    by (rule conj_cong [OF refl]) (simp add: t n)
  then show ?thesis
    by (simp only: parse_accepts_iff line_item_fields_iff conj_assoc)
qed

lemma shipping_address_fields_iff:
  "fst (z_object ShippingAddressShape addr) = Valid \<longleftrightarrow>
     (\<exists>kvs. addr = JObj kvs)
   \<and> (\<exists>s. prop_opt addr ''first_name'' = JStr s)
   \<and> (\<exists>s. prop_opt addr ''last_name'' = JStr s)
   \<and> (\<exists>s. prop_opt addr ''address1'' = JStr s)
   \<and> (prop_opt addr ''address2'' = JUndefined \<or> (\<exists>s. prop_opt addr ''address2'' = JStr s))
   \<and> (\<exists>s. prop_opt addr ''city'' = JStr s)
   \<and> (\<exists>s. prop_opt addr ''zip'' = JStr s)
   \<and> (\<exists>s. prop_opt addr ''province'' = JStr s)
   \<and> (\<exists>s. prop_opt addr ''country'' = JStr s)
   \<and> (\<exists>c. prop_opt addr ''country_code'' = JStr c \<and> length c = 2)
   \<and> (prop_opt addr ''province_code'' = JUndefined \<or> (\<exists>s. prop_opt addr ''province_code'' = JStr s))"
  by (simp add: z_object_Valid_iff ShippingAddressShape_def field_iffs)

lemma shipping_address_accepted_iff:
  "(\<exists>out. parse ShippingAddressSchema addr = Inr out) \<longleftrightarrow>
     (\<exists>kvs. addr = JObj kvs)
   \<and> (\<exists>s. prop_opt addr ''first_name'' = JStr s)
   \<and> (\<exists>s. prop_opt addr ''last_name'' = JStr s)
   \<and> (\<exists>s. prop_opt addr ''address1'' = JStr s)
   \<and> (prop_opt addr ''address2'' = JUndefined \<or> (\<exists>s. prop_opt addr ''address2'' = JStr s))
   \<and> (\<exists>s. prop_opt addr ''city'' = JStr s)
   \<and> (\<exists>s. prop_opt addr ''zip'' = JStr s)
   \<and> (\<exists>s. prop_opt addr ''province'' = JStr s)
   \<and> (\<exists>s. prop_opt addr ''country'' = JStr s)
   \<and> (\<exists>c. prop_opt addr ''country_code'' = JStr c \<and> length c = 2)
   \<and> (prop_opt addr ''province_code'' = JUndefined \<or> (\<exists>s. prop_opt addr ''province_code'' = JStr s))
   \<and> (prop_opt addr ''country_code'' \<noteq> JStr ''US'' \<or> truthy (prop_opt addr ''province_code''))"
proof -
  let ?V = "fst (z_object ShippingAddressShape addr) = Valid"
  let ?out = "fst (snd (z_object ShippingAddressShape addr))"
  have d: "distinct (map fst ShippingAddressShape)" by (simp add: ShippingAddressShape_def)
  have c: "prop_opt ?out ''country_code'' = prop_opt addr ''country_code''" if ?V
    using z_object_out_field [OF _ d, of addr "''country_code''" "z_string [z_length 2]"] that
    by (simp add: ShippingAddressShape_def)
  have p: "prop_opt ?out ''province_code'' = prop_opt addr ''province_code''" if ?V
    using z_object_out_field [OF _ d, of addr "''province_code''" "z_optional (z_string [])"] that
    by (simp add: ShippingAddressShape_def z_optional_def)
  have "fst (ShippingAddressSchema addr) = Valid
      \<longleftrightarrow> ?V \<and> (prop_opt addr ''country_code'' \<noteq> JStr ''US'' \<or> truthy (prop_opt addr ''province_code''))"
    unfolding ShippingAddressSchema_def z_superRefine_Valid
    by (rule conj_cong [OF refl]) (simp add: c p)
  then show ?thesis
    by (simp only: parse_accepts_iff shipping_address_fields_iff conj_assoc)
qed

lemma example_order_accepted_iff:
  "(\<exists>out. parse ApliiqOrderSchema (example_order item addr) = Inr out) \<longleftrightarrow>
     (\<exists>out. parse LineItemSchema item = Inr out) \<and> (\<exists>out. parse ShippingAddressSchema addr = Inr out)"
  by (simp add: parse_accepts_iff ApliiqOrderSchema_def z_object_Valid_iff example_order_def
        z_array_Valid_iff field_iffs z_any_def)

text \<open>
  Claim C6. Whatever line item the line-item schema accepts has a positive quantity, a
  price made of one or more digits, a dot and exactly two digits, a SKU that starts with
  \<open>APQ-\<close>, and a non-empty title or name; whatever shipping address the address schema
  accepts has a country code of two characters and, when that code is \<open>US\<close>, a non-empty
  province code. So a price with one decimal place is rejected, \<open>"45.5"\<close> for one, and
  \<open>"45.50"\<close> is accepted; the SKU \<open>"1998244S7A1"\<close> is rejected and \<open>"APQ-1998244S7A1"\<close>
  accepted; a line item with neither title nor name is rejected, and so is one with
  quantity 0; a US address without province code is rejected and one with \<open>"CA"\<close>
  accepted, by the address schema and by the order schema. Acceptance is settled in
  general too: a line item is accepted exactly when it is an object whose \<open>id\<close> is a
  string, whose \<open>title\<close> and \<open>name\<close> are strings where present and not both empty or
  absent, whose \<open>quantity\<close> is a positive number, whose \<open>price\<close> matches the pattern,
  whose \<open>sku\<close> starts with \<open>APQ-\<close> and whose \<open>grams\<close> is a number where present; a
  shipping address is accepted exactly when its required fields are strings, its optional
  ones strings where present, its country code has two characters and, for \<open>US\<close>, its
  province code is not empty; and the README's order with any line item and any address
  in their places is accepted exactly when the line item and the address are.
\<close>

theorem C6_order_validation:
  "(\<forall>item out. parse LineItemSchema item = Inr out \<longrightarrow>
       (\<exists>q. prop_opt item ''quantity'' = JNum q \<and> 0 < q)
     \<and> (\<exists>p. prop_opt item ''price'' = JStr p \<and> price_regex p)
     \<and> (\<exists>s. prop_opt item ''sku'' = JStr s \<and> startsWith s ''APQ-'')
     \<and> (truthy (prop_opt item ''title'') \<or> truthy (prop_opt item ''name'')))
 \<and> (\<forall>addr out. parse ShippingAddressSchema addr = Inr out \<longrightarrow>
       (\<exists>c. prop_opt addr ''country_code'' = JStr c \<and> length c = 2)
     \<and> (prop_opt addr ''country_code'' \<noteq> JStr ''US'' \<or> truthy (prop_opt addr ''province_code'')))
 \<and> (\<forall>s. price_regex s \<longleftrightarrow>
       (\<exists>w a b. s = w @ [CHR ''.'', a, b] \<and> w \<noteq> [] \<and> (\<forall>c\<in>set (a # b # w). is_digit c)))
 \<and> (\<forall>w d. (\<forall>c\<in>set w. is_digit c) \<longrightarrow> \<not> price_regex (w @ [CHR ''.'', d]))
 \<and> \<not> price_regex ''45.5'' \<and> price_regex ''45.50''
 \<and> \<not> startsWith ''1998244S7A1'' ''APQ-'' \<and> startsWith ''APQ-1998244S7A1'' ''APQ-''
 \<and> isl (parse LineItemSchema (example_line_item ''45.5'' ''APQ-1998244S7A1''))
 \<and> isl (parse LineItemSchema (example_line_item ''45.50'' ''1998244S7A1''))
 \<and> parse LineItemSchema (example_line_item ''45.50'' ''APQ-1998244S7A1'')
      = Inr (example_line_item ''45.50'' ''APQ-1998244S7A1'')
 \<and> isl (parse LineItemSchema
      (JObj [(''id'', JStr ''1511138222''), (''quantity'', JNum 1),
             (''price'', JStr ''45.50''), (''sku'', JStr ''APQ-1998244S7A1'')]))
 \<and> isl (parse LineItemSchema
      (JObj [(''id'', JStr ''1511138222''), (''title'', JStr ''cotton heritage polly pocket''),
             (''quantity'', JNum 0), (''price'', JStr ''45.50''), (''sku'', JStr ''APQ-1998244S7A1'')]))
 \<and> isl (parse ShippingAddressSchema (example_address []))
 \<and> parse ShippingAddressSchema (example_address [(''province_code'', JStr ''CA'')])
      = Inr (example_address [(''province_code'', JStr ''CA'')])
 \<and> isl (parse ApliiqOrderSchema
      (example_order (example_line_item ''45.50'' ''APQ-1998244S7A1'') (example_address [])))
 \<and> parse ApliiqOrderSchema
      (example_order (example_line_item ''45.50'' ''APQ-1998244S7A1'')
         (example_address [(''province_code'', JStr ''CA'')]))
      = Inr (example_order (example_line_item ''45.50'' ''APQ-1998244S7A1'')
               (example_address [(''province_code'', JStr ''CA'')]))
 \<and> (\<forall>item. (\<exists>out. parse LineItemSchema item = Inr out) \<longleftrightarrow>
     (\<exists>kvs. item = JObj kvs)
   \<and> (\<exists>s. prop_opt item ''id'' = JStr s)
   \<and> (prop_opt item ''title'' = JUndefined \<or> (\<exists>s. prop_opt item ''title'' = JStr s))
   \<and> (prop_opt item ''name'' = JUndefined \<or> (\<exists>s. prop_opt item ''name'' = JStr s))
   \<and> (\<exists>q. prop_opt item ''quantity'' = JNum q \<and> 0 < q)
   \<and> (\<exists>p. prop_opt item ''price'' = JStr p \<and> price_regex p)
   \<and> (\<exists>s. prop_opt item ''sku'' = JStr s \<and> startsWith s ''APQ-'')
   \<and> (prop_opt item ''grams'' = JUndefined \<or> (\<exists>n. prop_opt item ''grams'' = JNum n))
   \<and> (truthy (prop_opt item ''title'') \<or> truthy (prop_opt item ''name'')))
 \<and> (\<forall>addr. (\<exists>out. parse ShippingAddressSchema addr = Inr out) \<longleftrightarrow>
     (\<exists>kvs. addr = JObj kvs)
   \<and> (\<exists>s. prop_opt addr ''first_name'' = JStr s)
   \<and> (\<exists>s. prop_opt addr ''last_name'' = JStr s)
   \<and> (\<exists>s. prop_opt addr ''address1'' = JStr s)
   \<and> (prop_opt addr ''address2'' = JUndefined \<or> (\<exists>s. prop_opt addr ''address2'' = JStr s))
   \<and> (\<exists>s. prop_opt addr ''city'' = JStr s)
   \<and> (\<exists>s. prop_opt addr ''zip'' = JStr s)
   \<and> (\<exists>s. prop_opt addr ''province'' = JStr s)
   \<and> (\<exists>s. prop_opt addr ''country'' = JStr s)
   \<and> (\<exists>c. prop_opt addr ''country_code'' = JStr c \<and> length c = 2)
   \<and> (prop_opt addr ''province_code'' = JUndefined \<or> (\<exists>s. prop_opt addr ''province_code'' = JStr s))
   \<and> (prop_opt addr ''country_code'' \<noteq> JStr ''US'' \<or> truthy (prop_opt addr ''province_code'')))
 \<and> (\<forall>item addr. (\<exists>out. parse ApliiqOrderSchema (example_order item addr) = Inr out) \<longleftrightarrow>
     (\<exists>out. parse LineItemSchema item = Inr out) \<and> (\<exists>out. parse ShippingAddressSchema addr = Inr out))"
proof (intro conjI)
  show "\<forall>item out. parse LineItemSchema item = Inr out \<longrightarrow>
       (\<exists>q. prop_opt item ''quantity'' = JNum q \<and> 0 < q)
     \<and> (\<exists>p. prop_opt item ''price'' = JStr p \<and> price_regex p)
     \<and> (\<exists>s. prop_opt item ''sku'' = JStr s \<and> startsWith s ''APQ-'')
     \<and> (truthy (prop_opt item ''title'') \<or> truthy (prop_opt item ''name''))"
    using line_item_accepted by blast
  show "\<forall>addr out. parse ShippingAddressSchema addr = Inr out \<longrightarrow>
       (\<exists>c. prop_opt addr ''country_code'' = JStr c \<and> length c = 2)
     \<and> (prop_opt addr ''country_code'' \<noteq> JStr ''US'' \<or> truthy (prop_opt addr ''province_code''))"
    using shipping_address_accepted by blast
  show "\<forall>s. price_regex s \<longleftrightarrow>
       (\<exists>w a b. s = w @ [CHR ''.'', a, b] \<and> w \<noteq> [] \<and> (\<forall>c\<in>set (a # b # w). is_digit c))"
    using price_regex_iff by blast
  show "\<forall>w d. (\<forall>c\<in>set w. is_digit c) \<longrightarrow> \<not> price_regex (w @ [CHR ''.'', d])"
    using price_one_decimal by blast
  show "\<not> price_regex ''45.5''" by (simp add: price_regex_def is_digit_def)
  show "price_regex ''45.50''" by (simp add: price_regex_def is_digit_def)
  show "\<not> startsWith ''1998244S7A1'' ''APQ-''" by (simp add: startsWith_def)
  show "startsWith ''APQ-1998244S7A1'' ''APQ-''" by (simp add: startsWith_def)
  show "isl (parse LineItemSchema (example_line_item ''45.5'' ''APQ-1998244S7A1''))"
    by (simp add: zod_defs schema_defs order_defs)
  show "isl (parse LineItemSchema (example_line_item ''45.50'' ''1998244S7A1''))"
    by (simp add: zod_defs schema_defs order_defs)
  show "parse LineItemSchema (example_line_item ''45.50'' ''APQ-1998244S7A1'')
      = Inr (example_line_item ''45.50'' ''APQ-1998244S7A1'')"
    by (simp add: zod_defs schema_defs order_defs)
  show "isl (parse LineItemSchema
      (JObj [(''id'', JStr ''1511138222''), (''quantity'', JNum 1),
             (''price'', JStr ''45.50''), (''sku'', JStr ''APQ-1998244S7A1'')]))"
    by (simp add: zod_defs schema_defs order_defs)
  show "isl (parse LineItemSchema
      (JObj [(''id'', JStr ''1511138222''), (''title'', JStr ''cotton heritage polly pocket''),
             (''quantity'', JNum 0), (''price'', JStr ''45.50''), (''sku'', JStr ''APQ-1998244S7A1'')]))"
    by (simp add: zod_defs schema_defs order_defs)
  show "isl (parse ShippingAddressSchema (example_address []))"
    by (simp add: zod_defs schema_defs order_defs show_nat.simps)
  show "parse ShippingAddressSchema (example_address [(''province_code'', JStr ''CA'')])
      = Inr (example_address [(''province_code'', JStr ''CA'')])"
    by (simp add: zod_defs schema_defs order_defs show_nat.simps)
  show "isl (parse ApliiqOrderSchema
      (example_order (example_line_item ''45.50'' ''APQ-1998244S7A1'') (example_address [])))"
    by (simp add: zod_defs schema_defs order_defs show_nat.simps)
  show "parse ApliiqOrderSchema
      (example_order (example_line_item ''45.50'' ''APQ-1998244S7A1'')
         (example_address [(''province_code'', JStr ''CA'')]))
      = Inr (example_order (example_line_item ''45.50'' ''APQ-1998244S7A1'')
               (example_address [(''province_code'', JStr ''CA'')]))"
    by (simp add: zod_defs schema_defs order_defs show_nat.simps)
  show "\<forall>item. (\<exists>out. parse LineItemSchema item = Inr out) \<longleftrightarrow>
     (\<exists>kvs. item = JObj kvs)
   \<and> (\<exists>s. prop_opt item ''id'' = JStr s)
   \<and> (prop_opt item ''title'' = JUndefined \<or> (\<exists>s. prop_opt item ''title'' = JStr s))
   \<and> (prop_opt item ''name'' = JUndefined \<or> (\<exists>s. prop_opt item ''name'' = JStr s))
   \<and> (\<exists>q. prop_opt item ''quantity'' = JNum q \<and> 0 < q)
   \<and> (\<exists>p. prop_opt item ''price'' = JStr p \<and> price_regex p)
   \<and> (\<exists>s. prop_opt item ''sku'' = JStr s \<and> startsWith s ''APQ-'')
   \<and> (prop_opt item ''grams'' = JUndefined \<or> (\<exists>n. prop_opt item ''grams'' = JNum n))
   \<and> (truthy (prop_opt item ''title'') \<or> truthy (prop_opt item ''name''))"
    by (intro allI) (rule line_item_accepted_iff)
  show "\<forall>addr. (\<exists>out. parse ShippingAddressSchema addr = Inr out) \<longleftrightarrow>
     (\<exists>kvs. addr = JObj kvs)
   \<and> (\<exists>s. prop_opt addr ''first_name'' = JStr s)
   \<and> (\<exists>s. prop_opt addr ''last_name'' = JStr s)
   \<and> (\<exists>s. prop_opt addr ''address1'' = JStr s)
   \<and> (prop_opt addr ''address2'' = JUndefined \<or> (\<exists>s. prop_opt addr ''address2'' = JStr s))
   \<and> (\<exists>s. prop_opt addr ''city'' = JStr s)
   \<and> (\<exists>s. prop_opt addr ''zip'' = JStr s)
   \<and> (\<exists>s. prop_opt addr ''province'' = JStr s)
   \<and> (\<exists>s. prop_opt addr ''country'' = JStr s)
   \<and> (\<exists>c. prop_opt addr ''country_code'' = JStr c \<and> length c = 2)
   \<and> (prop_opt addr ''province_code'' = JUndefined \<or> (\<exists>s. prop_opt addr ''province_code'' = JStr s))
   \<and> (prop_opt addr ''country_code'' \<noteq> JStr ''US'' \<or> truthy (prop_opt addr ''province_code''))"
    by (intro allI) (rule shipping_address_accepted_iff)
  show "\<forall>item addr. (\<exists>out. parse ApliiqOrderSchema (example_order item addr) = Inr out) \<longleftrightarrow>
     (\<exists>out. parse LineItemSchema item = Inr out) \<and> (\<exists>out. parse ShippingAddressSchema addr = Inr out)"
    by (intro allI) (rule example_order_accepted_iff)
qed

text \<open>
  Claim C6, at the line item and the shipping address of the README's example order.
\<close>

theorem C6_witness:
  "parse LineItemSchema (example_line_item ''45.50'' ''APQ-1998244S7A1'')
      = Inr (example_line_item ''45.50'' ''APQ-1998244S7A1'')
   \<and> (\<exists>p. prop_opt (example_line_item ''45.50'' ''APQ-1998244S7A1'') ''price'' = JStr p \<and> price_regex p)
   \<and> parse ShippingAddressSchema (example_address [(''province_code'', JStr ''CA'')])
      = Inr (example_address [(''province_code'', JStr ''CA'')])
   \<and> truthy (prop_opt (example_address [(''province_code'', JStr ''CA'')]) ''province_code'')"
proof -
  have item: "parse LineItemSchema (example_line_item ''45.50'' ''APQ-1998244S7A1'')
      = Inr (example_line_item ''45.50'' ''APQ-1998244S7A1'')"
    by (simp add: zod_defs schema_defs order_defs)
  have addr: "parse ShippingAddressSchema (example_address [(''province_code'', JStr ''CA'')])
      = Inr (example_address [(''province_code'', JStr ''CA'')])"
    by (simp add: zod_defs schema_defs order_defs show_nat.simps)
  have us: "prop_opt (example_address [(''province_code'', JStr ''CA'')]) ''country_code'' = JStr ''US''"
    by (simp add: order_defs)
  note items = C6_order_validation [THEN conjunct1, rule_format, OF item]
  note addrs = C6_order_validation [THEN conjunct2, THEN conjunct1, rule_format, OF addr]
  from items
  have "\<exists>p. prop_opt (example_line_item ''45.50'' ''APQ-1998244S7A1'') ''price'' = JStr p \<and> price_regex p"
    by (elim conjE)
  moreover from addrs us
  have "truthy (prop_opt (example_address [(''province_code'', JStr ''CA'')]) ''province_code'')"
    by simp
  ultimately show ?thesis using item addr by (intro conjI) assumption+
qed

lemmas part_002_defs = client_request_part_002_def request_interceptor_part_002_def
  getProducts_part_002_def createOrder_part_002_def

text \<open>
  Claim C1, at concrete inputs: a new client with the cache on, a body whose \<open>items\<close> is
  null and whose \<open>products\<close> is a list of one product, and a body that is a string.
\<close>

theorem C1_witness:
  "active_cache (new_ApliiqClient (example_config (example_cache None None)))
     = Some \<lparr>entries = [], opt_max = 1000, opt_ttl = 300000, opt_allowStale = False,
             opt_updateAgeOnGet = True\<rparr>
   \<and> \<not> cache_has \<lparr>entries = [], opt_max = 1000, opt_ttl = 300000, opt_allowStale = False,
                    opt_updateAgeOnGet = True\<rparr> productsCacheKey 1000
   \<and> fst (getProducts
            (example_env 200 (JObj [(''items'', JNull), (''products'', JArr [JObj [(''Id'', JNum 1)]])])
               1000 1050)
            (new_ApliiqClient (example_config (example_cache None None))))
       = Inr (JArr [JObj [(''Id'', JNum 1)]])
   \<and> fst (getProducts (example_env 200 (JStr ''oops'') 1000 1050)
            (new_ApliiqClient (example_config (example_cache None None))))
       = Inl \<lparr>message = JStr ''Unexpected response type: string'', statusCode = 500,
              details = JUndefined\<rparr>"
proof -
  let ?cl = "new_ApliiqClient (example_config (example_cache None None))"
  let ?body = "JObj [(''items'', JNull), (''products'', JArr [JObj [(''Id'', JNum 1)]])]"
  let ?e = "example_env 200 ?body 1000 1050"
  let ?e' = "example_env 200 (JStr ''oops'') 1000 1050"
  have ac: "active_cache ?cl
     = Some \<lparr>entries = [], opt_max = 1000, opt_ttl = 300000, opt_allowStale = False,
             opt_updateAgeOnGet = True\<rparr>"
    by (simp add: client_defs example_defs)
  have nohit: "\<not> cache_has \<lparr>entries = [], opt_max = 1000, opt_ttl = 300000, opt_allowStale = False,
                    opt_updateAgeOnGet = True\<rparr> productsCacheKey 1000"
    by (simp add: cache_has_def lookup_entry_def)
  have miss: "\<forall>c. active_cache ?cl = Some c \<longrightarrow> \<not> cache_has c productsCacheKey (perf_now ?e)"
    using nohit by (simp add: ac) (simp add: example_defs)
  have miss': "\<forall>c. active_cache ?cl = Some c \<longrightarrow> \<not> cache_has c productsCacheKey (perf_now ?e')"
    using nohit by (simp add: ac) (simp add: example_defs)
  have resp: "fst (client_request ?e (config ?cl) ''GET'' ''/Product'' JUndefined)
      = Inr \<lparr>status = 200, data = ?body\<rparr>"
    by (simp add: client_defs example_defs)
  have resp': "fst (client_request ?e' (config ?cl) ''GET'' ''/Product'' JUndefined)
      = Inr \<lparr>status = 200, data = JStr ''oops''\<rparr>"
    by (simp add: client_defs example_defs)
  have st: "storable ?cl [JObj [(''Id'', JNum 1)]]"
    by (simp add: storable_def)
  have "fst (getProducts ?e ?cl) = Inr (JArr [JObj [(''Id'', JNum 1)]])"
    using C1_getProducts_shapes [OF miss resp] st by simp
  moreover have "fst (getProducts ?e' ?cl)
       = Inl \<lparr>message = JStr ''Unexpected response type: string'', statusCode = 500,
              details = JUndefined\<rparr>"
    using C1_getProducts_shapes [OF miss' resp'] by simp
  ultimately show ?thesis using ac nohit by blast
qed

section \<open>Creating orders\<close>

lemma createOrder_part_002_validates_first:
  assumes "parse ApliiqOrderSchema order = Inl err"
  shows "createOrder_part_002 e cfg order = (Inl (handleError_part_002 err), [])"
  using assms by (simp add: createOrder_part_002_def)

lemma parse_Inl_ZodError: "parse s v = Inl err \<Longrightarrow> \<exists>issues. err = ZodError issues"
  by (cases "s v") (auto simp: parse_def split: if_splits)

lemma createOrder_part_002_ValidationError:
  assumes "parse ApliiqOrderSchema order = Inl err"
  shows "\<exists>ae. createOrder_part_002 e cfg order = (Inl ae, []) \<and> statusCode ae = 400"
proof -
  from assms obtain issues where "err = ZodError issues"
    by (auto dest: parse_Inl_ZodError)
  with assms show ?thesis
    by (simp add: createOrder_part_002_def)
qed

lemma createOrder_always_posts:
  "map (\<lambda>r. (req_method r, url r, req_data r)) (snd (snd (createOrder e this order)))
     = [(''POST'', ''/Order'', order)]"
  by (simp add: createOrder_def client_request_def request_interceptor_def Let_def
           split: sum.splits prod.splits)

text \<open>
  Claim C2 says that \<open>createOrder\<close> validates the order before any transport call and
  sends nothing when validation fails. The order below has a line item priced \<open>"45.5"\<close>,
  which the order schema rejects. \<open>createOrder\<close> of \<open>src/client.ts\<close> posts it to
  \<open>/Order\<close> as it is; \<open>createOrder\<close> of \<open>part_002\<close> sends nothing.
\<close>

theorem C2_createOrder_posts_before_validating:
  "isl (parse ApliiqOrderSchema
          (example_order (example_line_item ''45.5'' ''APQ-1998244S7A1'')
             (example_address [(''province_code'', JStr ''CA'')])))
   \<and> map (\<lambda>r. (req_method r, url r, req_data r))
        (snd (snd (createOrder (example_env 200 (JObj [(''id'', JNum 567890)]) 1000 1050)
                     (new_ApliiqClient (example_config None))
                     (example_order (example_line_item ''45.5'' ''APQ-1998244S7A1'')
                        (example_address [(''province_code'', JStr ''CA'')])))))
      = [(''POST'', ''/Order'',
          example_order (example_line_item ''45.5'' ''APQ-1998244S7A1'')
            (example_address [(''province_code'', JStr ''CA'')]))]
   \<and> snd (createOrder_part_002 (example_env 200 (JObj [(''id'', JNum 567890)]) 1000 1050)
            (example_config None)
            (example_order (example_line_item ''45.5'' ''APQ-1998244S7A1'')
               (example_address [(''province_code'', JStr ''CA'')]))) = []"
proof (intro conjI)
  show "isl (parse ApliiqOrderSchema
          (example_order (example_line_item ''45.5'' ''APQ-1998244S7A1'')
             (example_address [(''province_code'', JStr ''CA'')])))"
    by (simp add: zod_defs schema_defs order_defs show_nat.simps)
  then show "snd (createOrder_part_002 (example_env 200 (JObj [(''id'', JNum 567890)]) 1000 1050)
            (example_config None)
            (example_order (example_line_item ''45.5'' ''APQ-1998244S7A1'')
               (example_address [(''province_code'', JStr ''CA'')]))) = []"
    by (auto simp: isl_def createOrder_part_002_validates_first)
  show "map (\<lambda>r. (req_method r, url r, req_data r))
        (snd (snd (createOrder (example_env 200 (JObj [(''id'', JNum 567890)]) 1000 1050)
                     (new_ApliiqClient (example_config None))
                     (example_order (example_line_item ''45.5'' ''APQ-1998244S7A1'')
                        (example_address [(''province_code'', JStr ''CA'')])))))
      = [(''POST'', ''/Order'',
          example_order (example_line_item ''45.5'' ''APQ-1998244S7A1'')
            (example_address [(''province_code'', JStr ''CA'')]))]"
    by (rule createOrder_always_posts)
qed

section \<open>Validation of fetched products\<close>

text \<open>
  Claim C4 says that every element of the list \<open>getProducts\<close> returns has been validated
  against the product schema, and that one malformed element fails the call. The empty
  object is no product (\<open>Code\<close>, \<open>SKU\<close>, \<open>Sizes\<close>, \<open>Id\<close> and \<open>Name\<close> are required), yet
  \<open>getProducts\<close> of \<open>src/client.ts\<close> returns a list that holds it, with the cache off and
  with the cache on; \<open>getProducts\<close> of \<open>part_002\<close> fails on such a list.
\<close>

theorem C4_getProducts_returns_unvalidated:
  "isl (parse ProductSchema (JObj []))
   \<and> fst (getProducts (example_env 200 (JArr [JObj [(''Products'', JArr [JObj []])]]) 1000 1050)
            (new_ApliiqClient (example_config None)))
       = Inr (JArr [JObj []])
   \<and> fst (getProducts (example_env 200 (JArr [JObj [(''Products'', JArr [JObj []])]]) 1000 1050)
            (new_ApliiqClient (example_config (example_cache None None))))
       = Inr (JArr [JObj []])
   \<and> isl (fst (getProducts_part_002 (example_env 200 (JArr [JObj []]) 1000 1050) (example_config None)))"
proof (intro conjI)
  show "isl (parse ProductSchema (JObj []))"
    by (simp add: zod_defs schema_defs)
  show "fst (getProducts (example_env 200 (JArr [JObj [(''Products'', JArr [JObj []])]]) 1000 1050)
            (new_ApliiqClient (example_config None)))
       = Inr (JArr [JObj []])"
    by (simp add: getProducts_def fetchProducts_def extractProducts_def client_defs example_defs)
  show "fst (getProducts (example_env 200 (JArr [JObj [(''Products'', JArr [JObj []])]]) 1000 1050)
            (new_ApliiqClient (example_config (example_cache None None))))
       = Inr (JArr [JObj []])"
    by (simp add: getProducts_def fetchProducts_def extractProducts_def client_defs example_defs
          cache_has_def lookup_entry_def)
  show "isl (fst (getProducts_part_002 (example_env 200 (JArr [JObj []]) 1000 1050) (example_config None)))"
    by (simp add: part_002_defs example_defs zod_defs schema_defs)
qed

section \<open>The error mapper\<close>

text \<open>
  Claim C5 says that a transport failure carries the upstream response body as structured
  detail when it is available. For a response with status 404 and the body
  \<open>{message: "Not found"}\<close>, \<open>handleError\<close> of \<open>src/client.ts\<close> gives the message and
  the status and leaves \<open>details\<close> undefined, also seen through \<open>getProduct\<close>;
  \<open>handleError\<close> of \<open>part_002\<close> passes the body as \<open>details\<close>.
\<close>

theorem C5_handleError_drops_details:
  "handleError (AxiosError ''Request failed with status code 404''
      (Some \<lparr>status = 404, data = JObj [(''message'', JStr ''Not found'')]\<rparr>))
     = \<lparr>message = JStr ''Not found'', statusCode = 404, details = JUndefined\<rparr>
   \<and> fst (getProduct (example_env 404 (JObj [(''message'', JStr ''Not found'')]) 1000 1050)
            (new_ApliiqClient (example_config None)) 162)
     = Inl \<lparr>message = JStr ''Not found'', statusCode = 404, details = JUndefined\<rparr>
   \<and> handleError_part_002 (AxiosError ''Request failed with status code 404''
      (Some \<lparr>status = 404, data = JObj [(''message'', JStr ''Not found'')]\<rparr>))
     = \<lparr>message = JStr ''Not found'', statusCode = 404,
        details = JObj [(''message'', JStr ''Not found'')]\<rparr>"
  by (simp add: getProduct_def fetchProduct_def client_defs example_defs)

lemma handleError_details: "details (handleError err) = JUndefined"
  by (cases err) simp_all

lemma handleError_status:
  "statusCode (handleError (ZodError issues)) = 400"
  "statusCode (handleError (AxiosError msg None)) = 500"
  "0 < status r \<Longrightarrow> statusCode (handleError (AxiosError msg (Some r))) = status r"
  "statusCode (handleError (JsError msg)) = 500"
  "statusCode (handleError (NonError v)) = 500"
  by simp_all

section \<open>The authentication header\<close>

text \<open>
  Claim C3, as the code has it. Every request the client sends has passed the interceptor,
  which changes one header and nothing else. In \<open>src/client.ts\<close> the header is
  \<open>Authorization\<close> and its value is \<open>x-apliiq-auth\<close>, a space, and
  \<open><timestampSec>:<signature>:<appId>:<nonce>\<close>; in \<open>part_002\<close> the header is
  \<open>x-apliiq-auth\<close> and its value is \<open><timestampSec>:<signature>:<appId>:<nonce>\<close> alone.
  The timestamp is the decimal numeral of \<open>Date.now()\<close> in whole seconds; the nonce is the
  16 random bytes in lowercase hexadecimal, 32 characters; the signature is the base64
  HMAC-SHA256, keyed by the shared secret, of \<open>appId\<close>, timestamp, nonce and the base64 of
  the serialized body, concatenated without delimiters, where a body that is absent (or
  falsy) is signed as the empty string.
\<close>

theorem C3_authorization_header:
  assumes "length (randomBytes e 16) = 16"
  shows
    "let ts = show_nat (date_now e div 1000);
         nonce = generateNonce e;
         body = (if truthy (req_data req) then JSON_stringify e (req_data req) else '''');
         sig = hmac_sha256_base64 e (sharedSecret cfg) (appId cfg @ ts @ nonce @ base64 e body);
         v = ts @ '':'' @ sig @ '':'' @ appId cfg @ '':'' @ nonce
     in read_nat ts = date_now e div 1000
      \<and> (\<forall>c\<in>set ts. is_digit c)
      \<and> length nonce = 32
      \<and> set nonce \<subseteq> set ''0123456789abcdef''
      \<and> request_interceptor e cfg req
          = req\<lparr>headers := (headers req)(''Authorization'' \<mapsto> ''x-apliiq-auth '' @ v)\<rparr>
      \<and> request_interceptor_part_002 e cfg req
          = req\<lparr>headers := (headers req)(''x-apliiq-auth'' \<mapsto> v)\<rparr>
      \<and> snd (client_request e cfg m path (req_data req))
          = [request_interceptor e cfg
               \<lparr>req_method = m, url = path, req_data = req_data req, headers = default_headers\<rparr>]
      \<and> snd (client_request_part_002 e cfg m path (req_data req))
          = [request_interceptor_part_002 e cfg
               \<lparr>req_method = m, url = path, req_data = req_data req, headers = default_headers\<rparr>]"
proof -
  have "length (generateNonce e) = 32"
    using assms by (simp add: generateNonce_def length_toHex)
  moreover have "set (generateNonce e) \<subseteq> set ''0123456789abcdef''"
    unfolding generateNonce_def by (rule set_toHex)
  moreover note read_show_nat [of "date_now e div 1000"] show_nat_digits [of "date_now e div 1000"]
  ultimately show ?thesis
    by (simp add: Let_def request_interceptor_def request_interceptor_part_002_def
          client_request_def client_request_part_002_def)
qed

lemma example_nonce: "generateNonce (example_env st body t t') = ''3a7f00ff102b9cd45561e80d72a9b3c6''"
  by (simp add: generateNonce_def example_env_def toHex_def hex_char_def)

lemma example_ts: "show_nat (date_now (example_env st body t t') div 1000) = ''1700000000''"
  by (simp add: example_env_def show_nat.simps digit_char_def)

text \<open>
  Claim C3 says that the value of the authentication header is exactly
  \<open><timestampSec>:<signature>:<appId>:<nonce>\<close>. A request signed by the interceptor of
  \<open>src/client.ts\<close> has no header with that value: \<open>Authorization\<close> carries it behind the
  prefix \<open>x-apliiq-auth\<close> and a space.
\<close>

theorem C3_counterexample:
  "\<not> (\<exists>name. headers (request_interceptor (example_env 200 JNull 1000 1050) (example_config None)
                     example_request) name
        = Some (show_nat (date_now (example_env 200 JNull 1000 1050) div 1000) @ '':''
                @ hmac_sha256_base64 (example_env 200 JNull 1000 1050) (sharedSecret (example_config None))
                    (appId (example_config None)
                     @ show_nat (date_now (example_env 200 JNull 1000 1050) div 1000)
                     @ generateNonce (example_env 200 JNull 1000 1050)
                     @ base64 (example_env 200 JNull 1000 1050) '''')
                @ '':'' @ appId (example_config None) @ '':''
                @ generateNonce (example_env 200 JNull 1000 1050)))"
  by (simp add: example_nonce example_ts request_interceptor_def example_request_def default_headers_def)

text \<open>
  Claim C3, at a concrete request: a \<open>GET\<close> without a body, signed at
  \<open>Date.now() = 1700000000123\<close> with the application id \<open>app\<close>.
\<close>

theorem C3_witness:
  "length (randomBytes (example_env 200 JNull 1000 1050) 16) = 16
   \<and> headers (request_interceptor (example_env 200 JNull 1000 1050) (example_config None) example_request)
       ''Authorization''
     = Some ''x-apliiq-auth 1700000000:hmac(secret,app17000000003a7f00ff102b9cd45561e80d72a9b3c6b64()):app:3a7f00ff102b9cd45561e80d72a9b3c6''"
proof -
  have len: "length (randomBytes (example_env 200 JNull 1000 1050) 16) = 16"
    by (simp add: example_env_def)
  from C3_authorization_header [OF len, of example_request "example_config None"]
  have "request_interceptor (example_env 200 JNull 1000 1050) (example_config None) example_request
      = example_request\<lparr>headers := (headers example_request)(''Authorization'' \<mapsto>
          ''x-apliiq-auth 1700000000:hmac(secret,app17000000003a7f00ff102b9cd45561e80d72a9b3c6b64()):app:3a7f00ff102b9cd45561e80d72a9b3c6'')\<rparr>"
    by (simp add: Let_def example_nonce example_ts)
       (simp add: example_env_def example_config_def example_request_def)
  then show ?thesis using len by simp
qed

section \<open>Properties of the cache\<close>

subsection \<open>Finding entries\<close>



lemma find_Some_set: "find P xs = Some x \<Longrightarrow> x \<in> set xs \<and> P x"
  by (induction xs) (auto split: if_splits)

lemma find_butlast:
  "find P xs = Some x \<Longrightarrow> length (takeWhile (\<lambda>y. \<not> P y) xs) + 1 < length xs \<Longrightarrow>
     find P (butlast xs) = Some x"
  by (induction xs) (auto split: if_splits)

lemma takeWhile_butlast:
  "find P xs = Some x \<Longrightarrow> length (takeWhile (\<lambda>y. \<not> P y) xs) + 1 < length xs \<Longrightarrow>
     takeWhile (\<lambda>y. \<not> P y) (butlast xs) = takeWhile (\<lambda>y. \<not> P y) xs"
  by (induction xs) (auto split: if_splits)

lemma takeWhile_filter_le:
  "(\<And>x. P x \<Longrightarrow> Q x) \<Longrightarrow>
     length (takeWhile (\<lambda>y. \<not> P y) (filter Q xs)) \<le> length (takeWhile (\<lambda>y. \<not> P y) xs)"
  by (induction xs) auto

lemma find_remove_other:
  "k' \<noteq> k \<Longrightarrow> find (\<lambda>e. ekey e = k') (remove_key k es) = find (\<lambda>e. ekey e = k') es"
  by (induction es) (auto simp: remove_key_def)

lemma find_remove_same: "find (\<lambda>e. ekey e = k) (remove_key k es) = None"
  by (induction es) (auto simp: remove_key_def)

lemma find_position_less:
  "find P xs = Some x \<Longrightarrow> length (takeWhile (\<lambda>y. \<not> P y) xs) < length xs"
  by (induction xs) (auto split: if_splits)

subsection \<open>Lookups after each operation\<close>

lemma lookup_entry_key: "lookup_entry c k = Some en \<Longrightarrow> ekey en = k \<and> en \<in> set (entries c)"
  by (auto simp: lookup_entry_def dest: find_Some_set)

lemma lookup_delete_same [simp]: "lookup_entry (cache_delete c k) k = None"
  by (simp add: lookup_entry_def cache_delete_def find_remove_same)


lemma lookup_set_same:
  "lookup_entry (cache_set c k v t now) k
     = Some \<lparr>ekey = k, evalue = v,
             estart = (if effective_ttl c t \<noteq> 0 then now else 0), ettl = effective_ttl c t\<rparr>"
  by (simp add: cache_set_def lookup_entry_def effective_ttl_def Let_def split: option.splits)

lemma position_set_same [simp]: "position k (entries (cache_set c k v t now)) = 0"
  by (simp add: cache_set_def position_def Let_def split: option.splits)

lemma opts_set [simp]:
  "opt_max (cache_set c k v t now) = opt_max c"
  "opt_ttl (cache_set c k v t now) = opt_ttl c"
  "opt_allowStale (cache_set c k v t now) = opt_allowStale c"
  "opt_updateAgeOnGet (cache_set c k v t now) = opt_updateAgeOnGet c"
  by (simp_all add: cache_set_def Let_def split: option.splits)

lemma effective_ttl_set [simp]: "effective_ttl (cache_set c k v t now) t' = effective_ttl c t'"
  by (cases t') (simp_all add: effective_ttl_def)

text \<open>An entry survives a \<open>set\<close> of another key when fewer than \<open>max - 1\<close> entries have been
  used more recently: the entry evicted is the last one.\<close>

lemma lookup_set_other:
  assumes "lookup_entry c k' = Some en" and "k' \<noteq> k" and "position k' (entries c) + 1 < opt_max c"
  shows "lookup_entry (cache_set c k v t now) k' = Some en
       \<and> position k' (entries (cache_set c k v t now)) \<le> position k' (entries c) + 1"
proof (cases "lookup_entry c k")
  case (Some old)
  have "find (\<lambda>e. ekey e = k') (remove_key k (entries c)) = Some en"
    using assms(1,2) by (simp add: lookup_entry_def find_remove_other)
  moreover have "position k' (remove_key k (entries c)) \<le> position k' (entries c)"
    unfolding position_def remove_key_def
    using takeWhile_filter_le [of "\<lambda>e. ekey e = k'" "\<lambda>e. ekey e \<noteq> k" "entries c"] assms(2)
    by simp
  ultimately show ?thesis
    using Some assms(2) by (simp add: cache_set_def lookup_entry_def position_def Let_def)
next
  case None
  show ?thesis
  proof (cases "opt_max c \<le> length (entries c)")
    case True
    from assms(1) have f: "find (\<lambda>e. ekey e = k') (entries c) = Some en"
      by (simp add: lookup_entry_def)
    from assms(3) True
    have p: "length (takeWhile (\<lambda>y. \<not> ekey y = k') (entries c)) + 1 < length (entries c)"
      by (simp add: position_def)
    from find_butlast [OF f p] takeWhile_butlast [OF f p] None True assms(2)
    show ?thesis
      by (simp add: cache_set_def lookup_entry_def position_def Let_def)
  next
    case False
    with None assms(1,2) show ?thesis
      by (simp add: cache_set_def lookup_entry_def position_def Let_def)
  qed
qed


lemma cache_has_iff:
  "lookup_entry c k = Some en \<Longrightarrow> cache_has c k now \<longleftrightarrow> \<not> (ettl en \<noteq> 0 \<and> now - estart en > ettl en)"
  by (simp add: cache_has_def isStale_def)

lemma cache_has_None [simp]: "lookup_entry c k = None \<Longrightarrow> \<not> cache_has c k now"
  by (simp add: cache_has_def)

lemma cache_get_hit:
  assumes "lookup_entry c k = Some en" and "cache_has c k now"
  shows "cache_get c k now
     = (evalue en,
        c\<lparr>entries := (if opt_updateAgeOnGet c then updateItemAge en now else en)
                       # remove_key k (entries c)\<rparr>)"
  using assms by (simp add: cache_get_def cache_has_def)

lemma lookup_get_hit:
  assumes "lookup_entry c k = Some en" and "cache_has c k now"
  shows "lookup_entry (snd (cache_get c k now)) k
     = Some (if opt_updateAgeOnGet c then updateItemAge en now else en)"
  using assms lookup_entry_key [OF assms(1)]
  by (simp add: cache_get_hit lookup_entry_def updateItemAge_def)

lemma cache_get_stale:
  assumes "lookup_entry c k = Some en" and "\<not> cache_has c k now"
  shows "cache_get c k now = (if opt_allowStale c then evalue en else JUndefined, cache_delete c k)"
  using assms by (simp add: cache_get_def cache_has_def)

lemma opts_get [simp]:
  "opt_max (snd (cache_get c k now)) = opt_max c"
  "opt_ttl (snd (cache_get c k now)) = opt_ttl c"
  "opt_allowStale (snd (cache_get c k now)) = opt_allowStale c"
  "opt_updateAgeOnGet (snd (cache_get c k now)) = opt_updateAgeOnGet c"
  by (simp_all add: cache_get_def cache_delete_def split: option.splits)

subsection \<open>The loop over the product list\<close>

lemma opts_cacheEachProduct [simp]:
  "opt_max (snd (cacheEachProduct cfg now ps c)) = opt_max c"
  "opt_ttl (snd (cacheEachProduct cfg now ps c)) = opt_ttl c"
  "opt_allowStale (snd (cacheEachProduct cfg now ps c)) = opt_allowStale c"
  "opt_updateAgeOnGet (snd (cacheEachProduct cfg now ps c)) = opt_updateAgeOnGet c"
  by (induction ps arbitrary: c) auto

lemma cacheEachProduct_None_iff:
  "fst (cacheEachProduct cfg now ps c) = None \<longleftrightarrow> JNull \<notin> set ps \<and> JUndefined \<notin> set ps"
  by (induction ps arbitrary: c) auto

lemma cacheEachProduct_preserves:
  assumes "lookup_entry c k = Some en" and "stored_under k ps = []"
    and "position k (entries c) + length ps < opt_max c"
  shows "lookup_entry (snd (cacheEachProduct cfg now ps c)) k = Some en"
  using assms
proof (induction ps arbitrary: c)
  case Nil
  then show ?case by simp
next
  case (Cons p ps)
  show ?case
  proof (cases "p = JNull \<or> p = JUndefined")
    case True
    with Cons.prems show ?thesis by auto
  next
    case False
    show ?thesis
    proof (cases "truthy (prop_opt p ''Id'')")
      case t: True
      let ?kp = "productCacheKey (prop_opt p ''Id'')"
      let ?c1 = "cache_set c ?kp p (singleProductTTL cfg) now"
      from Cons.prems(2) t have ne: "k \<noteq> ?kp" and rest: "stored_under k ps = []"
        by (auto simp: stored_under_def split: if_splits)
      from Cons.prems(3) have "position k (entries c) + 1 < opt_max c" by simp
      from lookup_set_other [OF Cons.prems(1) ne this, of p "singleProductTTL cfg" now]
      have l1: "lookup_entry ?c1 k = Some en"
        and p1: "position k (entries ?c1) \<le> position k (entries c) + 1" by blast+
      from p1 Cons.prems(3) have "position k (entries ?c1) + length ps < opt_max ?c1" by simp
      from Cons.IH [OF l1 rest this] False t show ?thesis by simp
    next
      case f: False
      from Cons.prems(2) have rest: "stored_under k ps = []"
        by (auto simp: stored_under_def split: if_splits)
      from Cons.prems(3) have "position k (entries c) + length ps < opt_max c" by simp
      from Cons.IH [OF Cons.prems(1) rest this] False f show ?thesis by simp
    qed
  qed
qed

lemma cacheEachProduct_stores:
  assumes "stored_under k ps \<noteq> []" and "length ps < opt_max c"
    and "JNull \<notin> set ps" and "JUndefined \<notin> set ps"
  shows "lookup_entry (snd (cacheEachProduct cfg now ps c)) k
     = Some \<lparr>ekey = k, evalue = last (stored_under k ps),
             estart = (if effective_ttl c (singleProductTTL cfg) \<noteq> 0 then now else 0),
             ettl = effective_ttl c (singleProductTTL cfg)\<rparr>"
  using assms
proof (induction ps arbitrary: c)
  case Nil
  then show ?case by (simp add: stored_under_def)
next
  case (Cons p ps)
  from Cons.prems(3,4) have nn: "p \<noteq> JNull" "p \<noteq> JUndefined"
    and nn': "JNull \<notin> set ps" "JUndefined \<notin> set ps" by auto
  let ?kp = "productCacheKey (prop_opt p ''Id'')"
  let ?c1 = "cache_set c ?kp p (singleProductTTL cfg) now"
  show ?case
  proof (cases "stored_under k ps = []")
    case True
    with Cons.prems(1) have t: "truthy (prop_opt p ''Id'')" and kp: "?kp = k"
      and l: "last (stored_under k (p # ps)) = p"
      by (auto simp: stored_under_def split: if_splits)
    have l1: "lookup_entry ?c1 k
       = Some \<lparr>ekey = k, evalue = p,
               estart = (if effective_ttl c (singleProductTTL cfg) \<noteq> 0 then now else 0),
               ettl = effective_ttl c (singleProductTTL cfg)\<rparr>"
      using lookup_set_same [of c ?kp p "singleProductTTL cfg" now] by (simp add: kp)
    have "position k (entries ?c1) + length ps < opt_max ?c1"
      using Cons.prems(2) position_set_same [of ?kp c p "singleProductTTL cfg" now]
      by (simp add: kp)
    from cacheEachProduct_preserves [OF l1 True this] nn t l show ?thesis by simp
  next
    case False
    then have l: "last (stored_under k (p # ps)) = last (stored_under k ps)"
      by (simp add: stored_under_def)
    from Cons.prems(2) have len: "length ps < opt_max c" by simp
    show ?thesis
    proof (cases "truthy (prop_opt p ''Id'')")
      case True
      from len have "length ps < opt_max ?c1" by simp
      from Cons.IH [OF False this nn'] nn True l show ?thesis by simp
    next
      case f: False
      from Cons.IH [OF False len nn'] nn f l show ?thesis by simp
    qed
  qed
qed

section \<open>Clearing the cache\<close>

lemma active_cache_enabled: "active_cache this = Some c \<Longrightarrow> cacheEnabled this \<and> cache this = Some c"
  by (simp add: active_cache_def split: if_splits)

lemma active_cache_update:
  "active_cache this = Some c \<Longrightarrow> active_cache (this\<lparr>cache := Some c'\<rparr>) = Some c'"
  by (simp add: active_cache_def split: if_splits)






lemmas key_defs = productCacheKey_def productsCacheKey_def cacheKeyPrefix_def show_int_def
  show_nat.simps digit_char_def



section \<open>Reads through the cache\<close>

lemma getProducts_hit:
  assumes "active_cache this = Some c" and "lookup_entry c productsCacheKey = Some en"
    and "cache_has c productsCacheKey (perf_now e)"
  shows "getProducts e this
     = (Inr (evalue en), this\<lparr>cache := Some (snd (cache_get c productsCacheKey (perf_now e)))\<rparr>, [])"
  using assms by (simp add: getProducts_def cache_get_hit)

lemma getProducts_stale:
  assumes "active_cache this = Some c" and "\<not> cache_has c productsCacheKey (perf_now e)"
  shows "getProducts e this = fetchProducts e this"
  using assms by (simp add: getProducts_def)

lemma getProduct_hit:
  assumes "active_cache this = Some c" and "lookup_entry c (productCacheKey (JNum i)) = Some en"
    and "cache_has c (productCacheKey (JNum i)) (perf_now e)"
  shows "getProduct e this i
     = (Inr (evalue en),
        this\<lparr>cache := Some (snd (cache_get c (productCacheKey (JNum i)) (perf_now e)))\<rparr>, [])"
  using assms by (simp add: getProduct_def cache_get_hit)

lemma getProduct_stale:
  assumes "active_cache this = Some c" and "\<not> cache_has c (productCacheKey (JNum i)) (perf_now e)"
  shows "getProduct e this i = fetchProduct e this i"
  using assms by (simp add: getProduct_def)

lemma new_client_updateAgeOnGet:
  "active_cache (new_ApliiqClient cfg) = Some c \<Longrightarrow> opt_updateAgeOnGet c"
  by (auto simp: new_ApliiqClient_def active_cache_def Let_def split: if_splits)

text \<open>
  Claim C8, as the code has it. A read checks staleness every time: a key is present
  exactly when it has an entry that is not stale, and an entry is stale once its
  time-to-live is not 0 and \<open>now - start > ttl\<close>. \<open>start\<close> is the time of the \<open>set\<close> that
  stored the entry or of the last cache hit on it: the client builds its cache with
  \<open>updateAgeOnGet\<close>, so a \<open>get\<close> that hits restarts the entry's age (a \<open>get\<close> on a stale
  entry deletes it). So \<open>getProducts\<close> and \<open>getProduct\<close> go to the server when more than
  the time-to-live has passed since the entry was stored or last hit, even if the key was
  never deleted, and answer from the cache, with no request, when it has not.
\<close>

theorem C8_staleness_on_read:
  "(\<forall>c k en now. lookup_entry c k = Some en \<longrightarrow>
       (cache_has c k now \<longleftrightarrow> \<not> (ettl en \<noteq> 0 \<and> now - estart en > ettl en)))
 \<and> (\<forall>c k v t now. lookup_entry (cache_set c k v t now) k
       = Some \<lparr>ekey = k, evalue = v,
               estart = (if effective_ttl c t \<noteq> 0 then now else 0), ettl = effective_ttl c t\<rparr>)
 \<and> (\<forall>c k en now. lookup_entry c k = Some en \<and> cache_has c k now \<longrightarrow>
       fst (cache_get c k now) = evalue en
     \<and> lookup_entry (snd (cache_get c k now)) k
         = Some (if opt_updateAgeOnGet c then en\<lparr>estart := (if ettl en \<noteq> 0 then now else 0)\<rparr> else en))
 \<and> (\<forall>c k en now. lookup_entry c k = Some en \<and> \<not> cache_has c k now \<longrightarrow>
       fst (cache_get c k now) = (if opt_allowStale c then evalue en else JUndefined)
     \<and> lookup_entry (snd (cache_get c k now)) k = None)
 \<and> (\<forall>cfg c. active_cache (new_ApliiqClient cfg) = Some c \<longrightarrow> opt_updateAgeOnGet c)
 \<and> (\<forall>e this c en. active_cache this = Some c \<and> lookup_entry c productsCacheKey = Some en
        \<and> ettl en \<noteq> 0 \<and> perf_now e - estart en > ettl en \<longrightarrow>
       getProducts e this = fetchProducts e this)
 \<and> (\<forall>e this c en i. active_cache this = Some c \<and> lookup_entry c (productCacheKey (JNum i)) = Some en
        \<and> ettl en \<noteq> 0 \<and> perf_now e - estart en > ettl en \<longrightarrow>
       getProduct e this i = fetchProduct e this i)
 \<and> (\<forall>e this c en. active_cache this = Some c \<and> lookup_entry c productsCacheKey = Some en
        \<and> \<not> (ettl en \<noteq> 0 \<and> perf_now e - estart en > ettl en) \<longrightarrow>
       fst (getProducts e this) = Inr (evalue en) \<and> snd (snd (getProducts e this)) = [])"
proof (intro conjI allI impI; (elim conjE)?)
  fix c k en now
  assume "lookup_entry c k = Some en"
  then show "cache_has c k now \<longleftrightarrow> \<not> (ettl en \<noteq> 0 \<and> now - estart en > ettl en)"
    by (rule cache_has_iff)
next
  fix c k v t now
  show "lookup_entry (cache_set c k v t now) k
       = Some \<lparr>ekey = k, evalue = v,
               estart = (if effective_ttl c t \<noteq> 0 then now else 0), ettl = effective_ttl c t\<rparr>"
    by (rule lookup_set_same)
next
  fix c k en now
  assume a: "lookup_entry c k = Some en" "cache_has c k now"
  then show "fst (cache_get c k now) = evalue en"
    by (simp add: cache_get_hit)
  from a show "lookup_entry (snd (cache_get c k now)) k
         = Some (if opt_updateAgeOnGet c then en\<lparr>estart := (if ettl en \<noteq> 0 then now else 0)\<rparr> else en)"
    by (simp add: lookup_get_hit updateItemAge_def)
next
  fix c k en now
  assume a: "lookup_entry c k = Some en" "\<not> cache_has c k now"
  then show "fst (cache_get c k now) = (if opt_allowStale c then evalue en else JUndefined)"
    by (simp add: cache_get_stale)
  from a show "lookup_entry (snd (cache_get c k now)) k = None"
    by (simp add: cache_get_stale)
next
  fix cfg c
  assume "active_cache (new_ApliiqClient cfg) = Some c"
  then show "opt_updateAgeOnGet c" by (rule new_client_updateAgeOnGet)
next
  fix e :: env and this c en
  assume a: "active_cache this = Some c" "lookup_entry c productsCacheKey = Some en"
    "ettl en \<noteq> 0" "perf_now e - estart en > ettl en"
  then have "\<not> cache_has c productsCacheKey (perf_now e)"
    by (simp add: cache_has_iff)
  with a(1) show "getProducts e this = fetchProducts e this"
    by (rule getProducts_stale)
next
  fix e :: env and this c en i
  assume a: "active_cache this = Some c" "lookup_entry c (productCacheKey (JNum i)) = Some en"
    "ettl en \<noteq> 0" "perf_now e - estart en > ettl en"
  then have "\<not> cache_has c (productCacheKey (JNum i)) (perf_now e)"
    by (simp add: cache_has_iff)
  with a(1) show "getProduct e this i = fetchProduct e this i"
    by (rule getProduct_stale)
next
  fix e :: env and this c en
  assume a: "active_cache this = Some c" "lookup_entry c productsCacheKey = Some en"
    "\<not> (ettl en \<noteq> 0 \<and> perf_now e - estart en > ettl en)"
  then have h: "cache_has c productsCacheKey (perf_now e)"
    by (simp add: cache_has_iff)
  from getProducts_hit [OF a(1,2) h] show "fst (getProducts e this) = Inr (evalue en)" by simp
  from getProducts_hit [OF a(1,2) h] show "snd (snd (getProducts e this)) = []" by simp
qed

lemmas cache_defs = cache_has_def cache_get_def cache_set_def cache_delete_def lookup_entry_def
  isStale_def updateItemAge_def remove_key_def effective_ttl_def
lemmas products_defs = getProducts_def fetchProducts_def extractProducts_def
  productsTTL_def singleProductTTL_def

text \<open>
  Claim C8 says that a read of a key after its time-to-live has elapsed since insertion
  returns absent. A client whose entries live 1000 ms fetches the product list at time
  1000, reads it at 1600 and again at 2200: the third read, 1200 ms after the insertion,
  is still answered from the cache, since the hit at 1600 restarted the entry's age.
\<close>

theorem C8_counterexample:
  "map_option (\<lambda>c. map (\<lambda>en. (ekey en, estart en, ettl en)) (entries c))
     (cache (fst (snd (getProducts
        (example_env 200 (JObj [(''products'', JArr [example_product 162])]) 1000 1000)
        (new_ApliiqClient (example_config (example_cache None (Some 1000))))))))
     = Some [(''apliiq:product:162'', 1000, 1000), (''apliiq:products:all'', 1000, 1000)]
   \<and> map (\<lambda>(r, sent). (r, length sent))
       (getProducts_calls
          [example_env 200 (JObj [(''products'', JArr [example_product 162])]) 1000 1000,
           example_env 200 (JObj [(''products'', JArr [example_product 162])]) 1600 1600,
           example_env 200 (JObj [(''products'', JArr [example_product 162])]) 2200 2200]
          (new_ApliiqClient (example_config (example_cache None (Some 1000)))))
     = [(Inr (JArr [example_product 162]), 1),
        (Inr (JArr [example_product 162]), 0),
        (Inr (JArr [example_product 162]), 0)]"
  by (simp add: products_defs cache_defs client_defs example_defs key_defs example_product_def)

text \<open>
  Claim C8, at a client whose product list was stored at time 1000 to live 180000 ms: a
  read at time 200000 goes to the server, a read at time 5000 is answered from the cache.
\<close>

theorem C8_witness:
  "active_cache example_cached_client = Some example_store
   \<and> lookup_entry example_store productsCacheKey
       = Some \<lparr>ekey = ''apliiq:products:all'', evalue = JArr [example_product 162, example_product 7],
               estart = 1000, ettl = 180000\<rparr>
   \<and> getProducts (example_env 200 (JObj []) 200000 200050) example_cached_client
       = fetchProducts (example_env 200 (JObj []) 200000 200050) example_cached_client
   \<and> fst (getProducts (example_env 200 (JObj []) 5000 5050) example_cached_client)
       = Inr (JArr [example_product 162, example_product 7])
   \<and> snd (snd (getProducts (example_env 200 (JObj []) 5000 5050) example_cached_client)) = []"
proof -
  let ?en = "\<lparr>ekey = ''apliiq:products:all'', evalue = JArr [example_product 162, example_product 7],
               estart = 1000, ettl = 180000\<rparr>"
  have ac: "active_cache example_cached_client = Some example_store"
    by (simp add: example_cached_client_def active_cache_def)
  have l: "lookup_entry example_store productsCacheKey = Some ?en"
    by (simp add: example_store_def lookup_entry_def key_defs)
  note stale = C8_staleness_on_read [THEN conjunct2, THEN conjunct2, THEN conjunct2, THEN conjunct2,
      THEN conjunct2, THEN conjunct1, rule_format]
  note live = C8_staleness_on_read [THEN conjunct2, THEN conjunct2, THEN conjunct2, THEN conjunct2,
      THEN conjunct2, THEN conjunct2, THEN conjunct2, rule_format]
  have s: "getProducts (example_env 200 (JObj []) 200000 200050) example_cached_client
       = fetchProducts (example_env 200 (JObj []) 200000 200050) example_cached_client"
    by (rule stale [of example_cached_client example_store ?en]) (simp add: ac l example_env_def)
  have h: "fst (getProducts (example_env 200 (JObj []) 5000 5050) example_cached_client) = Inr (evalue ?en)
     \<and> snd (snd (getProducts (example_env 200 (JObj []) 5000 5050) example_cached_client)) = []"
    by (rule live [of example_cached_client example_store ?en]) (simp add: ac l example_env_def)
  from h have h1: "fst (getProducts (example_env 200 (JObj []) 5000 5050) example_cached_client)
       = Inr (JArr [example_product 162, example_product 7])"
    and h2: "snd (snd (getProducts (example_env 200 (JObj []) 5000 5050) example_cached_client)) = []"
    by simp_all
  show ?thesis
    using ac l s h1 h2 by (intro conjI) assumption+
qed

section \<open>A fetched list in the cache\<close>

lemma length_client_request: "length (snd (client_request e cfg m path body)) = 1"
  by (simp add: client_request_def Let_def)

lemma fetchProducts_stored:
  assumes ac: "active_cache this = Some c"
    and resp: "fst (client_request e (config this) ''GET'' ''/Product'' JUndefined) = Inr resp"
    and ex: "extractProducts (data resp) = Inr ps"
    and nn: "JNull \<notin> set ps" "JUndefined \<notin> set ps"
  shows "fetchProducts e this
     = (Inr (JArr ps),
        this\<lparr>cache := Some (snd (cacheEachProduct (config this) (perf_now_response e) ps
                  (cache_set c productsCacheKey (JArr ps) (productsTTL (config this))
                     (perf_now_response e))))\<rparr>,
        snd (client_request e (config this) ''GET'' ''/Product'' JUndefined))"
proof -
  let ?c0 = "cache_set c productsCacheKey (JArr ps) (productsTTL (config this)) (perf_now_response e)"
  obtain r sent where cr: "client_request e (config this) ''GET'' ''/Product'' JUndefined = (r, sent)"
    by (cases "client_request e (config this) ''GET'' ''/Product'' JUndefined")
  with resp have r: "r = Inr resp" by simp
  obtain eo c' where ce: "cacheEachProduct (config this) (perf_now_response e) ps ?c0 = (eo, c')"
    by (cases "cacheEachProduct (config this) (perf_now_response e) ps ?c0")
  from nn have "fst (cacheEachProduct (config this) (perf_now_response e) ps ?c0) = None"
    by (simp add: cacheEachProduct_None_iff)
  with ce have eo: "eo = None" by simp
  show ?thesis
    by (simp add: fetchProducts_def cr r ex ac ce eo)
qed

lemma fetchProducts_Inr:
  assumes ac: "active_cache this = Some c"
    and ok: "fst (fetchProducts e this) = Inr (JArr ps)"
  shows "\<exists>resp. fst (client_request e (config this) ''GET'' ''/Product'' JUndefined) = Inr resp
     \<and> extractProducts (data resp) = Inr ps \<and> JNull \<notin> set ps \<and> JUndefined \<notin> set ps"
proof -
  obtain r sent where cr: "client_request e (config this) ''GET'' ''/Product'' JUndefined = (r, sent)"
    by (cases "client_request e (config this) ''GET'' ''/Product'' JUndefined")
  show ?thesis
  proof (cases r)
    case (Inl err)
    with cr ok show ?thesis by (simp add: fetchProducts_def)
  next
    case (Inr resp)
    with cr have resp: "fst (client_request e (config this) ''GET'' ''/Product'' JUndefined) = Inr resp"
      by simp
    show ?thesis
    proof (cases "extractProducts (data resp)")
      case (Inl err)
      with ok show ?thesis by (simp add: fetchProducts_result [OF resp])
    next
      case ex: (Inr pa)
      let ?c0 = "cache_set c productsCacheKey (JArr pa) (productsTTL (config this)) (perf_now_response e)"
      show ?thesis
      proof (cases "fst (cacheEachProduct (config this) (perf_now_response e) pa ?c0)")
        case None
        with ok ex ac have "pa = ps" by (simp add: fetchProducts_result [OF resp])
        with None ex resp show ?thesis
          by (auto simp: cacheEachProduct_None_iff)
      next
        case (Some err)
        with ok ex ac show ?thesis by (simp add: fetchProducts_result [OF resp])
      qed
    qed
  qed
qed

text \<open>Reads of a stored product list that fall within its time-to-live, counted from a
  time \<open>t0\<close> no later than the entry's start, are all answered from the cache.\<close>

lemma repeated_hits:
  assumes "active_cache this = Some c" and "lookup_entry c productsCacheKey = Some en"
    and "evalue en = v" and "ettl en = T" and "T \<noteq> 0 \<longrightarrow> t0 \<le> estart en"
    and "\<forall>e'\<in>set es. t0 \<le> perf_now e' \<and> (T = 0 \<or> perf_now e' \<le> t0 + T)"
  shows "getProducts_calls es this = map (\<lambda>e'. (Inr v, [])) es"
  using assms
proof (induction es arbitrary: this c en)
  case Nil
  then show ?case by simp
next
  case (Cons e es)
  let ?now = "perf_now e"
  let ?c' = "snd (cache_get c productsCacheKey ?now)"
  let ?en' = "if opt_updateAgeOnGet c then updateItemAge en ?now else en"
  from Cons.prems(6) have t: "t0 \<le> ?now" "T = 0 \<or> ?now \<le> t0 + T" by simp_all
  with Cons.prems(4,5) have "\<not> (ettl en \<noteq> 0 \<and> ?now - estart en > ettl en)" by auto
  with Cons.prems(2) have h: "cache_has c productsCacheKey ?now"
    by (simp add: cache_has_iff)
  note hit = getProducts_hit [OF Cons.prems(1,2) h]
  have ac': "active_cache (this\<lparr>cache := Some ?c'\<rparr>) = Some ?c'"
    by (rule active_cache_update [OF Cons.prems(1)])
  have l': "lookup_entry ?c' productsCacheKey = Some ?en'"
    by (rule lookup_get_hit [OF Cons.prems(2) h])
  have v': "evalue ?en' = v" using Cons.prems(3) by (simp add: updateItemAge_def)
  have T': "ettl ?en' = T" using Cons.prems(4) by (simp add: updateItemAge_def)
  have s': "T \<noteq> 0 \<longrightarrow> t0 \<le> estart ?en'"
    using Cons.prems(4,5) t(1) by (simp add: updateItemAge_def)
  from Cons.prems(6) have rest: "\<forall>e'\<in>set es. t0 \<le> perf_now e' \<and> (T = 0 \<or> perf_now e' \<le> t0 + T)"
    by simp
  from Cons.IH [OF ac' l' v' T' s' rest] Cons.prems(3) show ?case
    by (simp add: hit)
qed

text \<open>
  Claim C10. With the cache on, a call of \<open>getProducts\<close> that reaches the server and gets
  an object in which none of \<open>Products\<close>, \<open>products\<close> and \<open>items\<close> holds an array returns
  the empty array, after one request, and stores the empty array under the list key with
  the list's time-to-live (\<open>products.batchTTL\<close>, else \<open>ttl\<close>, else the cache's own).
  Every later \<open>getProducts\<close> call within that time-to-live of the insertion (any call, when
  the time-to-live is 0) returns the empty array from the cache and sends no request.
\<close>

theorem C10_empty_list_is_cached:
  assumes ac: "active_cache this = Some c"
    and miss: "\<not> cache_has c productsCacheKey (perf_now e)"
    and resp: "fst (client_request e (config this) ''GET'' ''/Product'' JUndefined) = Inr resp"
    and obj: "data resp = JObj kvs"
    and none: "\<not> isArray (prop_opt (data resp) ''Products'')"
      "\<not> isArray (prop_opt (data resp) ''products'')"
      "\<not> isArray (prop_opt (data resp) ''items'')"
    and later: "\<forall>e'\<in>set es. perf_now_response e \<le> perf_now e'
        \<and> (effective_ttl c (productsTTL (config this)) = 0
           \<or> perf_now e' \<le> perf_now_response e + effective_ttl c (productsTTL (config this)))"
  shows "fst (getProducts e this) = Inr (JArr [])
     \<and> length (snd (snd (getProducts e this))) = 1
     \<and> (\<exists>c'. active_cache (fst (snd (getProducts e this))) = Some c'
          \<and> lookup_entry c' productsCacheKey
              = Some \<lparr>ekey = productsCacheKey, evalue = JArr [],
                      estart = (if effective_ttl c (productsTTL (config this)) \<noteq> 0
                                then perf_now_response e else 0),
                      ettl = effective_ttl c (productsTTL (config this))\<rparr>)
     \<and> getProducts_calls es (fst (snd (getProducts e this))) = map (\<lambda>e'. (Inr (JArr []), [])) es"
proof -
  let ?T = "effective_ttl c (productsTTL (config this))"
  let ?c' = "cache_set c productsCacheKey (JArr []) (productsTTL (config this)) (perf_now_response e)"
  let ?en = "\<lparr>ekey = productsCacheKey, evalue = JArr [],
              estart = (if ?T \<noteq> 0 then perf_now_response e else 0), ettl = ?T\<rparr>"
  have ex: "extractProducts (data resp) = Inr []"
    using none by (simp add: obj extract_object_none)
  have g: "getProducts e this
     = (Inr (JArr []), this\<lparr>cache := Some ?c'\<rparr>,
        snd (client_request e (config this) ''GET'' ''/Product'' JUndefined))"
    using fetchProducts_stored [OF ac resp ex] by (simp add: getProducts_stale [OF ac miss])
  have ac': "active_cache (this\<lparr>cache := Some ?c'\<rparr>) = Some ?c'"
    by (rule active_cache_update [OF ac])
  have l: "lookup_entry ?c' productsCacheKey = Some ?en"
    by (rule lookup_set_same)
  have calls: "getProducts_calls es (this\<lparr>cache := Some ?c'\<rparr>) = map (\<lambda>e'. (Inr (JArr []), [])) es"
    by (rule repeated_hits [OF ac' l, of "JArr []" ?T "perf_now_response e"]) (use later in simp_all)
  have 1: "fst (getProducts e this) = Inr (JArr [])" by (simp add: g)
  have 2: "length (snd (snd (getProducts e this))) = 1" by (simp add: g length_client_request)
  have 3: "\<exists>c'. active_cache (fst (snd (getProducts e this))) = Some c'
          \<and> lookup_entry c' productsCacheKey = Some ?en"
    by (rule exI [of _ ?c']) (simp add: g ac' l)
  have 4: "getProducts_calls es (fst (snd (getProducts e this))) = map (\<lambda>e'. (Inr (JArr []), [])) es"
    by (simp add: g calls)
  show ?thesis
    using 1 2 3 4 by (intro conjI) assumption+
qed

text \<open>
  Claim C10, at a new client with the cache on (entries live 300000 ms): the body \<open>{}\<close>
  arrives at time 1050, and the calls at times 2000 and 301050 are answered from the cache.
\<close>

theorem C10_witness:
  "fst (getProducts (example_env 200 (JObj []) 1000 1050)
          (new_ApliiqClient (example_config (example_cache None None)))) = Inr (JArr [])
   \<and> getProducts_calls
        [example_env 200 (JObj []) 2000 2050, example_env 200 (JObj []) 301050 301100]
        (fst (snd (getProducts (example_env 200 (JObj []) 1000 1050)
                     (new_ApliiqClient (example_config (example_cache None None))))))
      = [(Inr (JArr []), []), (Inr (JArr []), [])]"
proof -
  let ?cl = "new_ApliiqClient (example_config (example_cache None None))"
  let ?c = "\<lparr>entries = [], opt_max = 1000, opt_ttl = 300000, opt_allowStale = False,
             opt_updateAgeOnGet = True\<rparr>"
  let ?e = "example_env 200 (JObj []) 1000 1050"
  let ?es = "[example_env 200 (JObj []) 2000 2050, example_env 200 (JObj []) 301050 301100]"
  have ac: "active_cache ?cl = Some ?c"
    by (simp add: client_defs example_defs)
  have miss: "\<not> cache_has ?c productsCacheKey (perf_now ?e)"
    by (simp add: cache_has_def lookup_entry_def)
  have resp: "fst (client_request ?e (config ?cl) ''GET'' ''/Product'' JUndefined)
      = Inr \<lparr>status = 200, data = JObj []\<rparr>"
    by (simp add: client_defs example_defs)
  have later: "\<forall>e'\<in>set ?es. perf_now_response ?e \<le> perf_now e'
        \<and> (effective_ttl ?c (productsTTL (config ?cl)) = 0
           \<or> perf_now e' \<le> perf_now_response ?e + effective_ttl ?c (productsTTL (config ?cl)))"
    by (simp add: example_defs effective_ttl_def productsTTL_def new_ApliiqClient_def)
  from C10_empty_list_is_cached [OF ac miss resp _ _ _ _ later, of "[]"]
  have "fst (getProducts ?e ?cl) = Inr (JArr [])
     \<and> getProducts_calls ?es (fst (snd (getProducts ?e ?cl))) = map (\<lambda>e'. (Inr (JArr []), [])) ?es"
    by simp
  then show ?thesis by simp
qed

lemma stored_under_list [simp]: "stored_under productsCacheKey ps = []"
  using productCacheKey_not_list by (auto simp: stored_under_def filter_empty_conv)

lemma stored_under_member:
  "p \<in> set ps \<Longrightarrow> truthy (prop_opt p ''Id'') \<Longrightarrow>
     stored_under (productCacheKey (prop_opt p ''Id'')) ps \<noteq> []"
  by (auto simp: stored_under_def filter_empty_conv)

lemma length_fetchProduct: "length (snd (snd (fetchProduct e this i))) = 1"
proof -
  obtain r sent
    where cr: "client_request e (config this) ''GET'' (''/Product/'' @ show_int i) JUndefined = (r, sent)"
    by (cases "client_request e (config this) ''GET'' (''/Product/'' @ show_int i) JUndefined")
  have "length (snd (client_request e (config this) ''GET'' (''/Product/'' @ show_int i) JUndefined)) = 1"
    by (rule length_client_request)
  then have "length sent = 1"
    unfolding cr by simp
  then show ?thesis
    unfolding fetchProduct_def cr
    by (cases r) (simp_all add: Let_def split: sum.splits option.splits)
qed

text \<open>
  Claim C7, as the code has it. With the cache on, let a \<open>getProducts\<close> call reach the
  server and succeed with a list that leaves room in the cache (fewer products than
  \<open>max\<close>). Then one request was sent, and afterwards the cache holds the full list
  under the list key with the list's time-to-live (\<open>products.batchTTL\<close>, else \<open>ttl\<close>, else
  the cache's own) and, for every product of the list whose \<open>Id\<close> is truthy (set and not
  0), an entry under that product's key with the single-product time-to-live
  (\<open>products.ttl\<close>, else \<open>ttl\<close>, else the cache's own), holding the last product of the list
  with that key. A later \<open>getProduct\<close> call for the \<open>Id\<close> of any such product, made
  within the single-product time-to-live of the list's arrival (at any time, when that
  time-to-live is 0), returns the cached product and sends no request.
\<close>

theorem C7_list_fetch_populates:
  assumes ac: "active_cache this = Some c"
    and miss: "\<not> cache_has c productsCacheKey (perf_now e)"
    and ok: "fst (getProducts e this) = Inr (JArr ps)"
    and fits: "length ps < opt_max c"
  shows "length (snd (snd (getProducts e this))) = 1
     \<and> (\<exists>c'. active_cache (fst (snd (getProducts e this))) = Some c'
          \<and> lookup_entry c' productsCacheKey
              = Some \<lparr>ekey = productsCacheKey, evalue = JArr ps,
                      estart = (if effective_ttl c (productsTTL (config this)) \<noteq> 0
                                then perf_now_response e else 0),
                      ettl = effective_ttl c (productsTTL (config this))\<rparr>
          \<and> (\<forall>p\<in>set ps. truthy (prop_opt p ''Id'') \<longrightarrow>
                lookup_entry c' (productCacheKey (prop_opt p ''Id''))
                  = Some \<lparr>ekey = productCacheKey (prop_opt p ''Id''),
                          evalue = last (stored_under (productCacheKey (prop_opt p ''Id'')) ps),
                          estart = (if effective_ttl c (singleProductTTL (config this)) \<noteq> 0
                                    then perf_now_response e else 0),
                          ettl = effective_ttl c (singleProductTTL (config this))\<rparr>))
     \<and> (\<forall>p\<in>set ps. \<forall>i e2. prop_opt p ''Id'' = JNum i \<and> i \<noteq> 0
            \<and> (effective_ttl c (singleProductTTL (config this)) = 0
               \<or> perf_now e2 - perf_now_response e \<le> effective_ttl c (singleProductTTL (config this)))
          \<longrightarrow> fst (getProduct e2 (fst (snd (getProducts e this))) i)
                = Inr (last (stored_under (productCacheKey (JNum i)) ps))
            \<and> snd (snd (getProduct e2 (fst (snd (getProducts e this))) i)) = [])"
proof -
  let ?now = "perf_now_response e"
  let ?Tb = "effective_ttl c (productsTTL (config this))"
  let ?Ts = "effective_ttl c (singleProductTTL (config this))"
  let ?c0 = "cache_set c productsCacheKey (JArr ps) (productsTTL (config this)) ?now"
  let ?c' = "snd (cacheEachProduct (config this) ?now ps ?c0)"
  let ?this' = "this\<lparr>cache := Some ?c'\<rparr>"
  let ?pe = "\<lambda>k. \<lparr>ekey = k, evalue = last (stored_under k ps),
                  estart = (if ?Ts \<noteq> 0 then ?now else 0), ettl = ?Ts\<rparr>"
  note fetch = getProducts_stale [OF ac miss]
  from ok have "fst (fetchProducts e this) = Inr (JArr ps)" by (simp add: fetch)
  from fetchProducts_Inr [OF ac this] obtain resp
    where resp: "fst (client_request e (config this) ''GET'' ''/Product'' JUndefined) = Inr resp"
      and ex: "extractProducts (data resp) = Inr ps"
      and nn: "JNull \<notin> set ps" "JUndefined \<notin> set ps"
    by blast
  have g: "getProducts e this
     = (Inr (JArr ps), ?this', snd (client_request e (config this) ''GET'' ''/Product'' JUndefined))"
    using fetchProducts_stored [OF ac resp ex nn] by (simp add: fetch)
  have ac': "active_cache ?this' = Some ?c'"
    by (rule active_cache_update [OF ac])
  have l0: "lookup_entry ?c0 productsCacheKey
     = Some \<lparr>ekey = productsCacheKey, evalue = JArr ps,
             estart = (if ?Tb \<noteq> 0 then ?now else 0), ettl = ?Tb\<rparr>"
    by (rule lookup_set_same)
  have list: "lookup_entry ?c' productsCacheKey
     = Some \<lparr>ekey = productsCacheKey, evalue = JArr ps,
             estart = (if ?Tb \<noteq> 0 then ?now else 0), ettl = ?Tb\<rparr>"
    by (rule cacheEachProduct_preserves [OF l0]) (use fits in simp_all)
  have prod: "lookup_entry ?c' k = Some (?pe k)" if "stored_under k ps \<noteq> []" for k
    using cacheEachProduct_stores [OF that _ nn, of ?c0 "config this" ?now] fits by simp
  have 1: "length (snd (snd (getProducts e this))) = 1"
    by (simp add: g length_client_request)
  have 2: "\<exists>c'. active_cache (fst (snd (getProducts e this))) = Some c'
          \<and> lookup_entry c' productsCacheKey
              = Some \<lparr>ekey = productsCacheKey, evalue = JArr ps,
                      estart = (if ?Tb \<noteq> 0 then ?now else 0), ettl = ?Tb\<rparr>
          \<and> (\<forall>p\<in>set ps. truthy (prop_opt p ''Id'') \<longrightarrow>
                lookup_entry c' (productCacheKey (prop_opt p ''Id''))
                  = Some (?pe (productCacheKey (prop_opt p ''Id''))))"
  proof (intro exI [of _ ?c'] conjI ballI impI)
    show "active_cache (fst (snd (getProducts e this))) = Some ?c'" by (simp add: g ac')
    show "lookup_entry ?c' productsCacheKey
              = Some \<lparr>ekey = productsCacheKey, evalue = JArr ps,
                      estart = (if ?Tb \<noteq> 0 then ?now else 0), ettl = ?Tb\<rparr>" by (rule list)
    fix p assume "p \<in> set ps" "truthy (prop_opt p ''Id'')"
    then show "lookup_entry ?c' (productCacheKey (prop_opt p ''Id''))
                  = Some (?pe (productCacheKey (prop_opt p ''Id'')))"
      by (intro prod stored_under_member)
  qed
  have 3: "\<forall>p\<in>set ps. \<forall>i e2. prop_opt p ''Id'' = JNum i \<and> i \<noteq> 0
            \<and> (?Ts = 0 \<or> perf_now e2 - ?now \<le> ?Ts)
          \<longrightarrow> fst (getProduct e2 (fst (snd (getProducts e this))) i)
                = Inr (last (stored_under (productCacheKey (JNum i)) ps))
            \<and> snd (snd (getProduct e2 (fst (snd (getProducts e this))) i)) = []"
  proof (intro ballI allI impI; elim conjE)
    fix p i and e2 :: env
    assume p: "p \<in> set ps" "prop_opt p ''Id'' = JNum i" "i \<noteq> 0"
      and fresh: "?Ts = 0 \<or> perf_now e2 - ?now \<le> ?Ts"
    let ?k = "productCacheKey (JNum i)"
    from p have "stored_under ?k ps \<noteq> []"
      using stored_under_member [of p ps] by simp
    then have l: "lookup_entry ?c' ?k = Some (?pe ?k)" by (rule prod)
    from fresh have "\<not> (ettl (?pe ?k) \<noteq> 0 \<and> perf_now e2 - estart (?pe ?k) > ettl (?pe ?k))"
      by auto
    with l have h: "cache_has ?c' ?k (perf_now e2)"
      by (simp only: cache_has_iff [OF l] simp_thms)
    from getProduct_hit [OF ac' l h]
    show "fst (getProduct e2 (fst (snd (getProducts e this))) i)
                = Inr (last (stored_under (productCacheKey (JNum i)) ps))
            \<and> snd (snd (getProduct e2 (fst (snd (getProducts e this))) i)) = []"
      by (simp add: g)
  qed
  show ?thesis
    using 1 2 3 by (intro conjI) assumption+
qed

text \<open>
  Claim C7 says that after a successful list fetch a \<open>getProduct\<close> call for any returned
  product is a cache hit. A client whose cache holds two entries fetches a list of three
  products: the third \<open>set\<close> evicts the list and the fourth evicts product 1, so the cache
  is left with products 3 and 2, and \<open>getProduct(1)\<close> right afterwards sends a request.
\<close>

theorem C7_counterexample:
  "fst (getProducts
          (example_env 200 (JObj [(''products'',
              JArr [example_product 1, example_product 2, example_product 3])]) 1000 1050)
          (new_ApliiqClient (example_config (example_cache (Some 2) None))))
     = Inr (JArr [example_product 1, example_product 2, example_product 3])
   \<and> map_option (\<lambda>c. map ekey (entries c))
       (cache (fst (snd (getProducts
          (example_env 200 (JObj [(''products'',
              JArr [example_product 1, example_product 2, example_product 3])]) 1000 1050)
          (new_ApliiqClient (example_config (example_cache (Some 2) None)))))))
     = Some [''apliiq:product:3'', ''apliiq:product:2'']
   \<and> length (snd (snd (getProduct (example_env 200 (example_product 1) 1100 1150)
       (fst (snd (getProducts
          (example_env 200 (JObj [(''products'',
              JArr [example_product 1, example_product 2, example_product 3])]) 1000 1050)
          (new_ApliiqClient (example_config (example_cache (Some 2) None))))))
       1))) = 1"
proof -
  let ?e = "example_env 200 (JObj [(''products'',
              JArr [example_product 1, example_product 2, example_product 3])]) 1000 1050"
  let ?cl = "new_ApliiqClient (example_config (example_cache (Some 2) None))"
  let ?c' = "\<lparr>entries =
      [\<lparr>ekey = ''apliiq:product:3'', evalue = example_product 3, estart = 1050, ettl = 300000\<rparr>,
       \<lparr>ekey = ''apliiq:product:2'', evalue = example_product 2, estart = 1050, ettl = 300000\<rparr>],
      opt_max = 2, opt_ttl = 300000, opt_allowStale = False, opt_updateAgeOnGet = True\<rparr>"
  have g: "fst (getProducts ?e ?cl)
             = Inr (JArr [example_product 1, example_product 2, example_product 3])
         \<and> fst (snd (getProducts ?e ?cl))
             = \<lparr>config = example_config (example_cache (Some 2) None), cache = Some ?c',
                cacheEnabled = True\<rparr>"
    by (simp add: products_defs cache_defs client_defs example_defs key_defs example_product_def)
  have "getProduct (example_env 200 (example_product 1) 1100 1150)
       \<lparr>config = example_config (example_cache (Some 2) None), cache = Some ?c',
                cacheEnabled = True\<rparr> 1
     = fetchProduct (example_env 200 (example_product 1) 1100 1150)
       \<lparr>config = example_config (example_cache (Some 2) None), cache = Some ?c',
                cacheEnabled = True\<rparr> 1"
    by (simp add: getProduct_def active_cache_def cache_has_def lookup_entry_def key_defs)
  then have p: "length (snd (snd (getProduct (example_env 200 (example_product 1) 1100 1150)
       \<lparr>config = example_config (example_cache (Some 2) None), cache = Some ?c',
                cacheEnabled = True\<rparr> 1))) = 1"
    by (simp only: length_fetchProduct)
  from g p show ?thesis by simp
qed

text \<open>
  Claim C7, at a new client with the cache on: the list of the products 162 and 7 arrives
  at time 1050, and \<open>getProduct(162)\<close> at time 2000 returns the product without a request.
\<close>

theorem C7_witness:
  "fst (getProducts
          (example_env 200 (JObj [(''products'', JArr [example_product 162, example_product 7])])
             1000 1050)
          (new_ApliiqClient (example_config (example_cache None None))))
     = Inr (JArr [example_product 162, example_product 7])
   \<and> fst (getProduct (example_env 200 JNull 2000 2050)
       (fst (snd (getProducts
          (example_env 200 (JObj [(''products'', JArr [example_product 162, example_product 7])])
             1000 1050)
          (new_ApliiqClient (example_config (example_cache None None))))))
       162) = Inr (example_product 162)
   \<and> snd (snd (getProduct (example_env 200 JNull 2000 2050)
       (fst (snd (getProducts
          (example_env 200 (JObj [(''products'', JArr [example_product 162, example_product 7])])
             1000 1050)
          (new_ApliiqClient (example_config (example_cache None None))))))
       162)) = []"
proof -
  let ?ps = "[example_product 162, example_product 7]"
  let ?e = "example_env 200 (JObj [(''products'', JArr ?ps)]) 1000 1050"
  let ?e2 = "example_env 200 JNull 2000 2050"
  let ?cl = "new_ApliiqClient (example_config (example_cache None None))"
  let ?c = "\<lparr>entries = [], opt_max = 1000, opt_ttl = 300000, opt_allowStale = False,
             opt_updateAgeOnGet = True\<rparr>"
  have ac: "active_cache ?cl = Some ?c"
    by (simp add: client_defs example_defs)
  have miss: "\<not> cache_has ?c productsCacheKey (perf_now ?e)"
    by (simp add: cache_has_def lookup_entry_def)
  have ok: "fst (getProducts ?e ?cl) = Inr (JArr ?ps)"
    by (simp add: products_defs cache_defs client_defs example_defs example_product_def)
  have fits: "length ?ps < opt_max ?c" by simp
  have mem: "example_product 162 \<in> set ?ps" by simp
  have ident: "prop_opt (example_product 162) ''Id'' = JNum 162 \<and> (162 :: int) \<noteq> 0
      \<and> (effective_ttl ?c (singleProductTTL (config ?cl)) = 0
         \<or> perf_now ?e2 - perf_now_response ?e \<le> effective_ttl ?c (singleProductTTL (config ?cl)))"
    by (simp add: example_product_def example_defs effective_ttl_def singleProductTTL_def
          new_ApliiqClient_def)
  have stored: "last (stored_under (productCacheKey (JNum 162)) ?ps) = example_product 162"
    by (simp add: stored_under_def example_product_def key_defs)
  note hit = C7_list_fetch_populates [OF ac miss ok fits, THEN conjunct2, THEN conjunct2,
      rule_format, OF mem ident]
  from hit stored
  have "fst (getProduct ?e2 (fst (snd (getProducts ?e ?cl))) 162) = Inr (example_product 162)"
    and "snd (snd (getProduct ?e2 (fst (snd (getProducts ?e ?cl))) 162)) = []"
    by simp_all
  with ok show ?thesis by (intro conjI) assumption+
qed

section \<open>Further properties of the client\<close>

text \<open>
  Every \<open>createOrder\<close> call of \<open>src/client.ts\<close> sends exactly one request, a \<open>POST\<close> to
  \<open>/Order\<close> whose body is the order as the caller gave it, whatever the order is.
\<close>

theorem createOrder_posts_order_as_given:
  "map (\<lambda>r. (req_method r, url r, req_data r)) (snd (snd (createOrder e this order)))
     = [(''POST'', ''/Order'', order)]"
  by (rule createOrder_always_posts)

text \<open>
  No error that \<open>handleError\<close> of \<open>src/client.ts\<close> builds has \<open>details\<close>.
\<close>

theorem handleError_never_sets_details: "details (handleError err) = JUndefined"
  by (rule handleError_details)

text \<open>
  The cache keys of two products are equal exactly when their numeric identifiers are,
  and no product's key is the key of the product list.
\<close>

theorem product_keys_distinct:
  "(productCacheKey (JNum i) = productCacheKey (JNum j)) = (i = j)
   \<and> productCacheKey (JNum i) \<noteq> productsCacheKey"
  using productCacheKey_inj [of i j] productCacheKey_not_list [of "JNum i"] by blast

end
